theory Spec2Isabelle
  imports Main "HOL-Library.Multiset"
begin

section \<open>modpack-downloader: the program and its two variants\<close>

text \<open>
  The repository holds one program in two variants: \<^verbatim>\<open>src/index.ts\<close>, which bounds the
  concurrent downloads with \<^verbatim>\<open>promiseLimit(6)\<close>, treats directory markers of the archive
  apart and catches errors at the top level, and \<^verbatim>\<open>src/unnamed/part_000\<close>, which does none
  of the three. The functions below take the variant as a parameter wherever the two
  differ and are one definition wherever they agree.
\<close>

datatype variant = Index_ts | Part_000

subsection \<open>Characters and strings\<close>

definition ascii_alpha :: "char \<Rightarrow> bool" where
  "ascii_alpha c = (c \<in> set ''abcdefghijklmnopqrstuvwxyzABCDEFGHIJKLMNOPQRSTUVWXYZ'')"

definition ascii_digit :: "char \<Rightarrow> bool" where
  "ascii_digit c = (c \<in> set ''0123456789'')"

definition to_lower :: "char \<Rightarrow> char" where
  "to_lower c =
     (case map_of (zip ''ABCDEFGHIJKLMNOPQRSTUVWXYZ'' ''abcdefghijklmnopqrstuvwxyz'') c of
        Some l \<Rightarrow> l
      | None \<Rightarrow> c)"

text \<open>A C0 control or a space: the code points U+0000 to U+0020.\<close>

definition c0_or_space :: "char \<Rightarrow> bool" where
  "c0_or_space c = ((of_char c :: nat) \<le> 32)"

definition tab_or_newline :: "char \<Rightarrow> bool" where
  "tab_or_newline c = (c \<in> {CHR 0x09, CHR 0x0A, CHR 0x0D})"

text \<open>\<open>s.split(d)\<close>: the pieces of \<open>s\<close> between the occurrences of \<open>d\<close>.\<close>

fun split_on :: "char \<Rightarrow> string \<Rightarrow> string list" where
  "split_on d [] = [[]]"
| "split_on d (c # cs) =
     (if c = d then [] # split_on d cs
      else (case split_on d cs of
              [] \<Rightarrow> [[c]]
            | x # xs \<Rightarrow> (c # x) # xs))"

text \<open>A JavaScript value that may be \<open>undefined\<close> or \<open>null\<close> is an option; \<open>!v\<close> holds
  of \<open>undefined\<close>, \<open>null\<close> and the empty string.\<close>

fun falsy :: "string option \<Rightarrow> bool" where
  "falsy None = True"
| "falsy (Some s) = (s = [])"

fun nth_opt :: "'a list \<Rightarrow> nat \<Rightarrow> 'a option" where
  "nth_opt [] n = None"
| "nth_opt (x # xs) 0 = Some x"
| "nth_opt (x # xs) (Suc n) = nth_opt xs n"

subsection \<open>The platform's \<open>URL\<close> class\<close>

text \<open>
  \<^verbatim>\<open>new URL(s)\<close> is the platform's parser of the WHATWG URL Standard, not code of the
  repository: the program takes it from the platform, as \<open>new_URL\<close> of the environment
  below, and reads three things of the parsed URL, \<open>protocol\<close>, \<open>hostname\<close> and
  \<open>searchParams\<close>. \<open>URL_new\<close> transcribes the standard for the part of it that the
  interface's URIs exercise, and says where it stops: its answer is \<open>None\<close> for a
  string outside that part, \<open>Some None\<close> where the standard fails (the constructor
  throws a \<open>TypeError\<close>) and \<open>Some (Some u)\<close> where it yields \<open>u\<close>. Outside are the
  special schemes (http, https, ws, wss, ftp, file), hosts in brackets (IPv6), hosts
  with a character that the standard percent-encodes, and queries with an escape
  \<open>%XX\<close> of a byte from \<open>80\<close> up (the standard decodes these as UTF-8).
  The steps, in the standard's order: leading and trailing C0 controls and spaces are
  stripped, tabs and newlines are removed, the scheme runs to the first colon, two
  slashes open an authority that runs to the next slash, question mark or number sign,
  the host is what remains of the authority after the credentials (up to the last at
  sign) and before the port, the query runs from the first question mark to the number
  sign. The query is read as \<open>application/x-www-form-urlencoded\<close>: pieces between
  ampersands, each a name and a value around its first equals sign, a plus sign
  standing for a space and \<open>%XX\<close> for the byte \<open>XX\<close>.
\<close>

record URL =
  protocol :: string
  hostname :: string
  searchParams :: "(string \<times> string) list"

definition scheme_char :: "char \<Rightarrow> bool" where
  "scheme_char c = (ascii_alpha c \<or> ascii_digit c \<or> c \<in> set ''+-.'')"

definition trim :: "string \<Rightarrow> string" where
  "trim s = rev (dropWhile c0_or_space (rev (dropWhile c0_or_space s)))"

definition hex_value :: "char \<Rightarrow> nat option" where
  "hex_value c =
     map_of (zip ''0123456789abcdefABCDEF''
       [0, 1, 2, 3, 4, 5, 6, 7, 8, 9, 10, 11, 12, 13, 14, 15, 10, 11, 12, 13, 14, 15]) c"

text \<open>\<open>percent_decode\<close> puts the byte \<open>XX\<close> for every escape \<open>%XX\<close> and leaves a
  percent sign that opens no escape. For a byte below \<open>80\<close> that byte is the character
  the standard's UTF-8 decoding yields; \<open>URL_new\<close> gives no answer on a query with an
  escape of a higher byte, so no other escape is decoded here.\<close>

fun percent_decode :: "string \<Rightarrow> string" where
  "percent_decode (c # a # b # cs) =
     (case (c = CHR ''%'', hex_value a, hex_value b) of
        (True, Some h, Some l) \<Rightarrow> char_of (16 * h + l) # percent_decode cs
      | _ \<Rightarrow> c # percent_decode (a # b # cs))"
| "percent_decode cs = cs"

definition form_decode :: "string \<Rightarrow> string" where
  "form_decode s = percent_decode (map (\<lambda>c. if c = CHR ''+'' then CHR '' '' else c) s)"

definition name_value :: "string \<Rightarrow> string \<times> string" where
  "name_value piece =
     (form_decode (takeWhile (\<lambda>c. c \<noteq> CHR ''='') piece),
      form_decode (drop 1 (dropWhile (\<lambda>c. c \<noteq> CHR ''='') piece)))"

definition parse_query :: "string \<Rightarrow> (string \<times> string) list" where
  "parse_query q = map name_value (filter (\<lambda>piece. piece \<noteq> []) (split_on CHR ''&'' q))"

definition forbidden_host_char :: "char \<Rightarrow> bool" where
  "forbidden_host_char c =
     (c \<in> set [CHR 0x00, CHR 0x09, CHR 0x0A, CHR 0x0D, CHR '' '', CHR ''#'',
                CHR ''/'', CHR '':'', CHR ''<'', CHR ''>'', CHR ''?'', CHR ''@'', CHR ''['',
                CHR 0x5C, CHR '']'', CHR ''^'', CHR ''|''])"

text \<open>The characters a host keeps as they are: the printable ASCII characters that are
  not forbidden.\<close>

definition host_plain :: "char \<Rightarrow> bool" where
  "host_plain c =
     (ascii_alpha c \<or> ascii_digit c \<or> c \<in> set ''-._~!$&()*+,;=%{}'' \<or>
      c \<in> set [CHR 0x22, CHR 0x27, CHR 0x60])"

definition special_scheme :: "string \<Rightarrow> bool" where
  "special_scheme sch = (sch \<in> set [''http'', ''https'', ''ws'', ''wss'', ''ftp'', ''file''])"

text \<open>Whether a query holds an escape of a byte from \<open>80\<close> up.\<close>

fun high_escape :: "string \<Rightarrow> bool" where
  "high_escape (c # a # b # cs) =
     (case (c = CHR ''%'', hex_value a, hex_value b) of
        (True, Some h, Some l) \<Rightarrow> 8 \<le> h \<or> high_escape cs
      | _ \<Rightarrow> high_escape (a # b # cs))"
| "high_escape cs = False"

text \<open>Whether a string holds an escape at all: a percent sign before two hexadecimal digits.\<close>

fun has_escape :: "string \<Rightarrow> bool" where
  "has_escape (c # a # b # cs) =
     (case (c = CHR ''%'', hex_value a, hex_value b) of
        (True, Some h, Some l) \<Rightarrow> True
      | _ \<Rightarrow> has_escape (a # b # cs))"
| "has_escape cs = False"

definition decimal :: "string \<Rightarrow> nat" where
  "decimal ds = foldl (\<lambda>n d. 10 * n + (of_char d - 48)) 0 ds"

text \<open>The host of an authority: \<open>Some None\<close> where the parser fails, \<open>None\<close> where the
  host is outside the part transcribed.\<close>

definition host_of :: "string \<Rightarrow> string option option" where
  "host_of authority =
     (let hp = last (split_on CHR ''@'' authority);
          h = takeWhile (\<lambda>c. c \<noteq> CHR '':'') hp;
          after_host = drop (length h) hp;
          port = drop 1 after_host
       in if take 1 hp = ''['' then None
          else if CHR ''@'' \<in> set authority \<and> hp = [] then Some None
          else if after_host \<noteq> [] \<and> h = [] then Some None
          else if \<not> list_all ascii_digit port \<or> 65535 < decimal port then Some None
          else if list_ex forbidden_host_char h then Some None
          else if list_all host_plain h then Some (Some h)
          else None)"

definition URL_new :: "string \<Rightarrow> URL option option" where
  "URL_new input =
     (let s = filter (\<lambda>c. \<not> tab_or_newline c) (trim input);
          scheme = takeWhile scheme_char s;
          r = dropWhile scheme_char s
      in if scheme = [] \<or> \<not> ascii_alpha (hd scheme) \<or> take 1 r \<noteq> '':'' then Some None
         else if special_scheme (map to_lower scheme) then None
         else
           let rest = drop 1 r;
               has_authority = (take 2 rest = ''//'');
               authority = takeWhile (\<lambda>c. c \<notin> set ''/?#'') (drop 2 rest);
               after = (if has_authority then drop (length authority) (drop 2 rest) else rest);
               before_fragment = takeWhile (\<lambda>c. c \<noteq> CHR ''#'') after;
               query = drop 1 (dropWhile (\<lambda>c. c \<noteq> CHR ''?'') before_fragment)
           in case (if has_authority then host_of authority else Some (Some [])) of
                None \<Rightarrow> None
              | Some None \<Rightarrow> Some None
              | Some (Some h) \<Rightarrow>
                  if high_escape query then None
                  else Some (Some \<lparr>protocol = map to_lower scheme @ '':'', hostname = h,
                                   searchParams = parse_query query\<rparr>))"

text \<open>\<open>searchParams.get(name)\<close>: the value of the first pair of that name, or \<open>null\<close>.\<close>

definition searchParams_get :: "URL \<Rightarrow> string \<Rightarrow> string option" where
  "searchParams_get u name = map_of (searchParams u) name"

subsection \<open>Errors, the file system and the process's world\<close>

text \<open>
  Every way a step can fail is a value: \<open>ProcessExit n\<close> is \<^verbatim>\<open>process.exit(n)\<close>,
  \<open>Error m\<close> is \<^verbatim>\<open>throw Error(m)\<close>, \<open>TypeError\<close> and \<open>SyntaxError\<close> are the platform's
  (\<^verbatim>\<open>new URL\<close>, \<^verbatim>\<open>JSON.parse\<close>), \<open>NetworkError url\<close> is a request that fails and
  \<open>SystemError code\<close> a file system call that fails.
\<close>

datatype error =
    ProcessExit nat
  | Error string
  | TypeError string
  | SyntaxError string
  | NetworkError string
  | SystemError string

text \<open>
  A path as \<^verbatim>\<open>path.join\<close> returns it, kept in parsed form: whether it starts at the
  root, its names, and whether it ends with a slash. A file system maps the first two
  to a directory or a file with its bytes; the root and the working directory always
  exist.
\<close>

record fpath =
  absolute :: bool
  names :: "string list"
  trailing_slash :: bool

datatype node = Dir | File string

type_synonym filesystem = "bool \<times> string list \<Rightarrow> node option"

record world =
  fs :: filesystem
  stderr :: "string list"
  requests :: "string list"

definition write_stderr :: "string \<Rightarrow> world \<Rightarrow> world" where
  "write_stderr s w = w\<lparr>stderr := stderr w @ [s]\<rparr>"

text \<open>\<^verbatim>\<open>path.join\<close>: the segments that are not empty are joined with slashes and the
  result is normalised; splitting each segment at its slashes gives the same names as
  splitting the joined string. \<open>.\<close> and empty names are dropped, \<open>..\<close> removes the name
  before it (at the start of a relative path it stays, at the root it is dropped).\<close>

definition norm_step :: "bool \<Rightarrow> string list \<Rightarrow> string \<Rightarrow> string list" where
  "norm_step ab acc c =
     (if c = [] \<or> c = ''.'' then acc
      else if c = ''..'' then
        (if acc = [] then (if ab then acc else acc @ [c])
         else if last acc = ''..'' then acc @ [c]
         else butlast acc)
      else acc @ [c])"

definition join :: "string list \<Rightarrow> fpath" where
  "join segments =
     (let segs = filter (\<lambda>s. s \<noteq> []) segments;
          ab = (case segs of [] \<Rightarrow> False | s # _ \<Rightarrow> take 1 s = ''/'')
      in \<lparr>absolute = ab,
          names = foldl (norm_step ab) [] (concat (map (split_on CHR ''/'') segs)),
          trailing_slash = (case rev segs of [] \<Rightarrow> False | s # _ \<Rightarrow> last s = CHR ''/'')\<rparr>)"

text \<open>\<^verbatim>\<open>path.dirname\<close> (POSIX): trailing slashes and the last name are cut, with the
  slash before it; \<open>.\<close> when nothing is left.\<close>

definition dirname :: "string \<Rightarrow> string" where
  "dirname p =
     (let slash = (\<lambda>c. c = CHR ''/'');
          r = dropWhile (\<lambda>c. \<not> slash c) (dropWhile slash (rev p))
      in if length r \<le> 1 then (if take 1 p = ''/'' then ''/'' else ''.'')
         else if take 1 p = ''/'' \<and> length r = 2 then ''//''
         else rev (tl r))"

definition loc :: "fpath \<Rightarrow> bool \<times> string list" where
  "loc p = (absolute p, names p)"

definition is_dir :: "filesystem \<Rightarrow> bool \<times> string list \<Rightarrow> bool" where
  "is_dir t l = (snd l = [] \<or> t l = Some Dir)"

definition is_file :: "filesystem \<Rightarrow> bool \<times> string list \<Rightarrow> bool" where
  "is_file t l = (case t l of Some (File b) \<Rightarrow> True | _ \<Rightarrow> False)"

text \<open>The path itself and the paths above it, shortest first.\<close>

definition ancestors :: "fpath \<Rightarrow> (bool \<times> string list) list" where
  "ancestors p = map (\<lambda>n. (absolute p, take n (names p))) [1 ..< Suc (length (names p))]"

text \<open>\<^verbatim>\<open>fs.promises.mkdir(p, { recursive: true })\<close>: every missing directory of the
  path is created; a directory that exists is left as it is; a file in the way is an
  error, \<open>ENOTDIR\<close> above the path and \<open>EEXIST\<close> at the path itself.\<close>

definition mkdir_recursive :: "filesystem \<Rightarrow> fpath \<Rightarrow> error + filesystem" where
  "mkdir_recursive t p =
     (if list_ex (is_file t) (butlast (ancestors p)) then Inl (SystemError ''ENOTDIR'')
      else if list_ex (is_file t) (ancestors p) then Inl (SystemError ''EEXIST'')
      else Inr (foldl (\<lambda>t' l. t'(l \<mapsto> Dir)) t (ancestors p)))"

text \<open>\<^verbatim>\<open>fs.createWriteStream(p)\<close> with a stream piped into it up to \<open>finish\<close>: the file
  is created or truncated and holds the stream's bytes. Opening fails on a path that
  ends with a slash or names a directory (\<open>EISDIR\<close>) and where the directory above is
  missing (\<open>ENOENT\<close>).\<close>

definition write_file :: "filesystem \<Rightarrow> fpath \<Rightarrow> string \<Rightarrow> error + filesystem" where
  "write_file t p bytes =
     (if trailing_slash p \<or> is_dir t (loc p) then Inl (SystemError ''EISDIR'')
      else if \<not> is_dir t (absolute p, butlast (names p)) then Inl (SystemError ''ENOENT'')
      else Inr (t(loc p \<mapsto> File bytes)))"

subsection \<open>The remote service, the archive and the platform\<close>

record ModFileInfo =
  id_num :: int
  displayName :: string
  fileName :: string
  downloadUrl :: string

record manifest_file =
  projectID :: int
  fileID :: int

record ModpackManifest =
  files :: "manifest_file list"

text \<open>
  The archive is an object of the library JSZip, which is not code of the repository.
  It holds the entries under their full names, in the order of the archive, and a root
  prefix (empty for a loaded archive). An entry says whether it is a directory marker
  and holds its decompressed bytes. The three methods the program calls, as the
  library documents them: \<^verbatim>\<open>file(name)\<close> answers the entry of that name below the root,
  or \<open>null\<close> when there is none or it is a directory; \<^verbatim>\<open>folder(name)\<close> "creates a
  directory if it doesn't exist" and answers "a new JSZip object with the new folder
  as root", so for a name it never answers \<open>null\<close> (its declared type,
  \<^verbatim>\<open>JSZip | null\<close>, allows it); \<^verbatim>\<open>forEach\<close> enumerates the entries below the root with
  their paths relative to it.
\<close>

record zipobject =
  dir :: bool
  content :: string

record jszip =
  entries :: "(string \<times> zipobject) list"
  root :: string

definition zip_file :: "jszip \<Rightarrow> string \<Rightarrow> zipobject option" where
  "zip_file z n =
     (case map_of (entries z) (root z @ n) of
        None \<Rightarrow> None
      | Some obj \<Rightarrow> if dir obj then None else Some obj)"

definition forceTrailingSlash :: "string \<Rightarrow> string" where
  "forceTrailingSlash p = (if p = [] \<or> last p \<noteq> CHR ''/'' then p @ ''/'' else p)"

definition zip_folder :: "jszip \<Rightarrow> string \<Rightarrow> jszip option" where
  "zip_folder z arg =
     (if arg = [] then Some z
      else
        let n = forceTrailingSlash (root z @ arg)
        in Some \<lparr>entries =
                   (case map_of (entries z) n of
                      None \<Rightarrow> entries z @ [(n, \<lparr>dir = True, content = []\<rparr>)]
                    | Some obj \<Rightarrow> entries z),
                 root = n\<rparr>)"

definition zip_forEach :: "jszip \<Rightarrow> (string \<times> zipobject) list" where
  "zip_forEach z =
     map (\<lambda>(n, obj). (drop (length (root z)) n, obj))
       (filter (\<lambda>(n, obj). length (root z) < length n \<and> take (length (root z)) n = root z)
          (entries z))"

text \<open>
  What lies outside the process: \<open>new_URL s\<close> is \<^verbatim>\<open>new URL(s)\<close>, \<open>fetch_json url\<close> is the JSON body of a GET read as
  \<open>ModFileInfo\<close>, \<open>fetch_body url\<close> the bytes a GET streams, \<open>load_zip bytes\<close> is
  \<^verbatim>\<open>JSZip.loadAsync\<close>, \<open>JSON_parse text\<close> is \<^verbatim>\<open>JSON.parse\<close> read as a
  \<open>ModpackManifest\<close>, and \<open>inspect e\<close> is the text \<^verbatim>\<open>console.error\<close> prints for an
  error. \<open>None\<close> is a request or a parse that fails.
\<close>

record env =
  new_URL :: "string \<Rightarrow> URL option"
  fetch_json :: "string \<Rightarrow> ModFileInfo option"
  fetch_body :: "string \<Rightarrow> string option"
  load_zip :: "string \<Rightarrow> jszip option"
  JSON_parse :: "string \<Rightarrow> ModpackManifest option"
  inspect :: "error \<Rightarrow> string"

text \<open>A \<^verbatim>\<open>string | number\<close> and its text in a template literal.\<close>

datatype ident = Str string | Num int

fun string_of_nat :: "nat \<Rightarrow> string" where
  "string_of_nat n =
     (if n < 10 then [''0123456789'' ! n]
      else string_of_nat (n div 10) @ [''0123456789'' ! (n mod 10)])"

declare string_of_nat.simps [simp del]

fun template :: "ident \<Rightarrow> string" where
  "template (Str s) = s"
| "template (Num i) = (if i < 0 then ''-'' @ string_of_nat (nat (- i)) else string_of_nat (nat i))"

subsection \<open>\<open>parseCommandLineArgs\<close>\<close>

record args =
  targetDir :: string
  addonId :: string
  fileId :: string

definition printUsage :: "world \<Rightarrow> world" where
  "printUsage w =
     write_stderr
       (''Usage: modpack-downloader modpack_url(curseforge://install/...) target_directory''
          @ [CHR 0x0A]) w"

text \<open>\<open>argv\<close> is \<^verbatim>\<open>process.argv\<close>: the interpreter, the script, then the arguments.\<close>

definition parseCommandLineArgs ::
  "env \<Rightarrow> string list \<Rightarrow> world \<Rightarrow> (error + args) \<times> world" where
  "parseCommandLineArgs e argv w =
     (let strModpackUrl = nth_opt argv 2;
          tdir = nth_opt argv 3
      in if falsy strModpackUrl \<or> strModpackUrl = Some ''--help'' \<or> falsy tdir
         then (Inl (ProcessExit 1), printUsage w)
         else
           (case new_URL e (the strModpackUrl) of
              None \<Rightarrow> (Inl (TypeError ''Invalid URL''), w)
            | Some modpackUrl \<Rightarrow>
                if protocol modpackUrl \<noteq> ''curseforge:'' \<or> hostname modpackUrl \<noteq> ''install''
                then (Inl (Error ''bad url''), w)
                else
                  let a = searchParams_get modpackUrl ''addonId'';
                      f = searchParams_get modpackUrl ''fileId''
                  in if falsy a \<or> falsy f then (Inl (Error ''bad url''), w)
                     else (Inr \<lparr>targetDir = the tdir, addonId = the a, fileId = the f\<rparr>, w)))"

text \<open>
  The URI the interface names, \<^verbatim>\<open>curseforge://install?addonId=X&fileId=Y\<close>, for given
  \<open>X\<close> and \<open>Y\<close>. A character is \<open>kept\<close> when it reaches \<open>searchParams\<close> as it is
  written: it is not an ampersand or a number sign, which delimit, not a plus sign, which
  stands for a space, and not a tab or a newline, which the parser removes. A value is
  \<open>literal\<close> when its characters are kept and it holds no escape, and \<open>clean\<close> at the
  end of a URI when moreover its last character is not a control or a space, which the
  parser strips there. \<open>follows_standard e s\<close> says that the platform's constructor
  answers on \<open>s\<close> what the standard prescribes.
\<close>

definition install_uri :: "string \<Rightarrow> string \<Rightarrow> string" where
  "install_uri X Y = ''curseforge://install?addonId='' @ X @ ''&fileId='' @ Y"

definition kept :: "char \<Rightarrow> bool" where
  "kept c = (c \<notin> set ''&#+'' \<and> \<not> tab_or_newline c)"

definition literal :: "string \<Rightarrow> bool" where
  "literal v = (list_all kept v \<and> \<not> has_escape v)"

definition clean :: "string \<Rightarrow> bool" where
  "clean v = (literal v \<and> (v = [] \<or> \<not> c0_or_space (last v)))"

definition follows_standard :: "env \<Rightarrow> string \<Rightarrow> bool" where
  "follows_standard e s = (URL_new s = Some (new_URL e s))"

text \<open>The world before a run on an empty disk: no file, nothing printed, no request.\<close>

definition empty_world :: world where
  "empty_world = \<lparr>fs = Map.empty, stderr = [], requests = []\<rparr>"

subsection \<open>\<open>fetchModFileInfo\<close> and \<open>downloadModpack\<close>\<close>

definition api_url :: "ident \<Rightarrow> ident \<Rightarrow> string" where
  "api_url projectId fid =
     ''https://addons-ecs.forgesvc.net/api/v2/addon/'' @ template projectId @ ''/file/''
       @ template fid"

text \<open>Every request is recorded in \<open>requests\<close>, whether it succeeds or not.\<close>

definition fetchModFileInfo ::
  "env \<Rightarrow> ident \<Rightarrow> ident \<Rightarrow> world \<Rightarrow> (error + ModFileInfo) \<times> world" where
  "fetchModFileInfo e projectId fid w =
     (let url = api_url projectId fid;
          w1 = w\<lparr>requests := requests w @ [url]\<rparr>
      in case fetch_json e url of
           None \<Rightarrow> (Inl (NetworkError url), w1)
         | Some info \<Rightarrow> (Inr info, w1))"

definition downloadModpack :: "env \<Rightarrow> ModFileInfo \<Rightarrow> world \<Rightarrow> (error + jszip) \<times> world" where
  "downloadModpack e modpackInfo w =
     (let url = downloadUrl modpackInfo;
          w1 = w\<lparr>requests := requests w @ [url]\<rparr>
      in case fetch_body e url of
           None \<Rightarrow> (Inl (NetworkError url), w1)
         | Some modpackZipBuffer \<Rightarrow>
             (case load_zip e modpackZipBuffer of
                None \<Rightarrow> (Inl (Error ''invalid zip''), w1)
              | Some modpackZip \<Rightarrow> (Inr modpackZip, w1)))"

subsection \<open>\<open>downloadMods\<close>: the concurrent download phase\<close>

text \<open>
  The tasks of \<^verbatim>\<open>manifest.files.map(...)\<close> run on one thread and give way only where they
  await, so the phase is a sequence of events on a state: the tasks that wait for a
  slot, the tasks in flight, the counter \<open>downloadedCount\<close>, the first rejection
  (what \<^verbatim>\<open>Promise.all\<close> rejects with) and the world. A task's requests, its file and its
  progress line are applied when the task settles; the order in which the tasks in
  flight settle is not the program's to choose, and is a parameter: the schedule, a
  list of numbers, the \<open>k\<close>-th of which picks (modulo their number) the task in flight
  that settles \<open>k\<close>-th. Every list is a schedule, so a statement about all lists is a
  statement about all orders of completion.
\<close>

record dl_state =
  waiting :: "manifest_file list"
  inflight :: "manifest_file list"
  downloadedCount :: nat
  rejected :: "error option"
  world_of :: world

definition downloadLimit :: nat where
  "downloadLimit = 6"

text \<open>
  Modelled from the spec: the limiter \<^verbatim>\<open>promiseLimit(6)\<close> of the package
  \<^verbatim>\<open>promise-limit\<close>, whose code is not under \<^verbatim>\<open>src/\<close>. The spec: the downloader
  "runs at most a fixed number of in-flight file transfers simultaneously, queuing the
  rest until a slot frees". \<open>limiter_submit\<close> is the call \<^verbatim>\<open>downloadLimit(fn)\<close>: the
  task starts when a slot is free and joins the queue otherwise. \<open>limiter_release\<close> is
  what follows a task that settles: the slot goes to the first task of the queue.
\<close>

definition limiter_submit :: "nat \<Rightarrow> manifest_file \<Rightarrow> dl_state \<Rightarrow> dl_state" where
  "limiter_submit limit f st =
     (if length (inflight st) \<ge> limit then st\<lparr>waiting := waiting st @ [f]\<rparr>
      else st\<lparr>inflight := inflight st @ [f]\<rparr>)"

definition limiter_release :: "nat \<Rightarrow> dl_state \<Rightarrow> dl_state" where
  "limiter_release limit st =
     (if length (inflight st) < limit then
        (case waiting st of
           [] \<Rightarrow> st
         | f # rest \<Rightarrow> st\<lparr>waiting := rest, inflight := inflight st @ [f]\<rparr>)
      else st)"

text \<open>One step of \<^verbatim>\<open>manifest.files.map(...)\<close>: \<^verbatim>\<open>src/index.ts\<close> hands the task to the
  limiter, \<^verbatim>\<open>part_000\<close> starts it at once.\<close>

definition submit :: "variant \<Rightarrow> dl_state \<Rightarrow> manifest_file \<Rightarrow> dl_state" where
  "submit v st f =
     (case v of
        Index_ts \<Rightarrow> limiter_submit downloadLimit f st
      | Part_000 \<Rightarrow> st\<lparr>inflight := inflight st @ [f]\<rparr>)"

text \<open>The body of one task, from \<^verbatim>\<open>fetchModFileInfo\<close> to the progress line. A request
  that fails and a file that cannot be opened both end the task with an error. (The
  task listens for the errors of the network stream only; an error of the file stream
  is raised outside the task and ends the process. Either way the phase fails there.)\<close>

definition download_task ::
  "env \<Rightarrow> string \<Rightarrow> nat \<Rightarrow> manifest_file \<Rightarrow> dl_state \<Rightarrow> dl_state" where
  "download_task e tdir fileCount f st =
     (case fetchModFileInfo e (Num (projectID f)) (Num (fileID f)) (world_of st) of
        (Inl err, w1) \<Rightarrow> st\<lparr>rejected := Some err, world_of := w1\<rparr>
      | (Inr modInfo, w1) \<Rightarrow>
          let w2 = w1\<lparr>requests := requests w1 @ [downloadUrl modInfo]\<rparr>
          in (case fetch_body e (downloadUrl modInfo) of
                None \<Rightarrow> st\<lparr>rejected := Some (NetworkError (downloadUrl modInfo)), world_of := w2\<rparr>
              | Some bytes \<Rightarrow>
                  (case write_file (fs w2) (join [tdir, ''mods'', fileName modInfo]) bytes of
                     Inl err \<Rightarrow> st\<lparr>rejected := Some err, world_of := w2\<rparr>
                   | Inr t \<Rightarrow>
                       let n = Suc (downloadedCount st)
                       in st\<lparr>downloadedCount := n,
                             world_of :=
                               write_stderr
                                 (''('' @ string_of_nat n @ ''/'' @ string_of_nat fileCount
                                    @ '') '' @ displayName modInfo @ [CHR 0x0A])
                                 (w2\<lparr>fs := t\<rparr>)\<rparr>)))"

text \<open>The \<open>i\<close>-th task in flight settles; in \<^verbatim>\<open>src/index.ts\<close> the limiter then gives
  its slot away.\<close>

definition settle :: "variant \<Rightarrow> env \<Rightarrow> string \<Rightarrow> nat \<Rightarrow> nat \<Rightarrow> dl_state \<Rightarrow> dl_state" where
  "settle v e tdir fileCount i st =
     (let f = inflight st ! i;
          st1 = st\<lparr>inflight := take i (inflight st) @ drop (Suc i) (inflight st)\<rparr>;
          st2 = download_task e tdir fileCount f st1
      in case v of
           Index_ts \<Rightarrow> limiter_release downloadLimit st2
         | Part_000 \<Rightarrow> st2)"

definition pick :: "nat list \<Rightarrow> nat \<Rightarrow> nat" where
  "pick sched n = (case sched of [] \<Rightarrow> 0 | c # _ \<Rightarrow> c mod n)"

lemma settle_measure:
  "i < length (inflight st) \<Longrightarrow>
   length (inflight (settle v e tdir fileCount i st)) + length (waiting (settle v e tdir fileCount i st))
     < length (inflight st) + length (waiting st)"
  by (cases v)
     (auto simp: settle_def download_task_def limiter_release_def fetchModFileInfo_def Let_def
           split: option.splits sum.splits list.splits prod.splits)

lemma pick_less: "0 < n \<Longrightarrow> pick sched n < n"
  by (simp add: pick_def split: list.splits)

text \<open>\<^verbatim>\<open>await Promise.all(promises)\<close>: tasks settle, in the order the schedule picks, until
  none is in flight or one has rejected.\<close>

function run_tasks ::
  "variant \<Rightarrow> env \<Rightarrow> string \<Rightarrow> nat \<Rightarrow> nat list \<Rightarrow> dl_state \<Rightarrow> dl_state" where
  "run_tasks v e tdir fileCount sched st =
     (if inflight st = [] \<or> rejected st \<noteq> None then st
      else run_tasks v e tdir fileCount (tl sched)
             (settle v e tdir fileCount (pick sched (length (inflight st))) st))"
  by pat_completeness auto
termination
  by (relation "measure (\<lambda>(v, e, tdir, fileCount, sched, st). length (inflight st) + length (waiting st))")
     (auto intro!: settle_measure pick_less)

declare run_tasks.simps [simp del]

definition initial_state :: "world \<Rightarrow> dl_state" where
  "initial_state w =
     \<lparr>waiting = [], inflight = [], downloadedCount = 0, rejected = None, world_of = w\<rparr>"

definition downloadMods ::
  "variant \<Rightarrow> env \<Rightarrow> nat list \<Rightarrow> jszip \<Rightarrow> string \<Rightarrow> world \<Rightarrow> (error + unit) \<times> world" where
  "downloadMods v e sched modpack tdir w =
     (case mkdir_recursive (fs w) (join [tdir, ''mods'']) of
        Inl err \<Rightarrow> (Inl err, w)
      | Inr t \<Rightarrow>
          let w1 = w\<lparr>fs := t\<rparr>
          in (case zip_file modpack ''manifest.json'' of
                None \<Rightarrow> (Inl (Error ''invalid modpack''), w1)
              | Some manifestData \<Rightarrow>
                  (case JSON_parse e (content manifestData) of
                     None \<Rightarrow> (Inl (SyntaxError ''JSON.parse''), w1)
                   | Some manifest \<Rightarrow>
                       let fileCount = length (files manifest);
                           w2 = write_stderr
                                  (''Downloading '' @ string_of_nat fileCount @ '' files...''
                                     @ [CHR 0x0A]) w1;
                           st0 = foldl (submit v) (initial_state w2) (files manifest);
                           st = run_tasks v e tdir fileCount sched st0
                       in (case rejected st of
                             Some err \<Rightarrow> (Inl err, world_of st)
                           | None \<Rightarrow> (Inr (), world_of st)))))"

text \<open>
  The instants of the phase: a state is reached from the initial one by events, each
  the start of a task by \<^verbatim>\<open>map\<close> or the settling of a task in flight. A statement
  about the states after all lists of events is a statement about every instant of
  every run.
\<close>

datatype event = Submit manifest_file | Settle nat

fun apply_event :: "variant \<Rightarrow> env \<Rightarrow> string \<Rightarrow> nat \<Rightarrow> dl_state \<Rightarrow> event \<Rightarrow> dl_state" where
  "apply_event v e tdir fileCount st (Submit f) = submit v st f"
| "apply_event v e tdir fileCount st (Settle i) =
     (if i < length (inflight st) then settle v e tdir fileCount i st else st)"

text \<open>The state with the \<open>i\<close>-th task taken out of those in flight.\<close>

definition removed :: "nat \<Rightarrow> dl_state \<Rightarrow> dl_state" where
  "removed i st = st\<lparr>inflight := take i (inflight st) @ drop (Suc i) (inflight st)\<rparr>"

text \<open>The slots: at most \<open>downloadLimit\<close> tasks in flight, and tasks wait only while all
  slots are taken.\<close>

definition slots_inv :: "dl_state \<Rightarrow> bool" where
  "slots_inv st =
     (length (inflight st) \<le> downloadLimit \<and>
      (waiting st = [] \<or> length (inflight st) = downloadLimit))"

text \<open>The counter: while no task has failed, every task started by \<^verbatim>\<open>map\<close> is counted,
  in flight or waiting. And the queue: \<^verbatim>\<open>part_000\<close> has none.\<close>

definition count_inv :: "nat \<Rightarrow> dl_state \<Rightarrow> bool" where
  "count_inv k st =
     (rejected st \<noteq> None \<or>
      downloadedCount st + length (inflight st) + length (waiting st) = k)"

definition queue_inv :: "variant \<Rightarrow> dl_state \<Rightarrow> bool" where
  "queue_inv v st = (case v of Index_ts \<Rightarrow> slots_inv st | Part_000 \<Rightarrow> waiting st = [])"

text \<open>
  What the download phase leaves on disk. \<open>task_file\<close> is the file a task writes when
  its two requests succeed: its place, \<^verbatim>\<open>join(targetDir, "mods", modInfo.fileName)\<close>, and
  its bytes. \<open>written t ds\<close> is the file system \<open>t\<close> after the files \<open>ds\<close> have been
  written in that order. \<open>fs_inv\<close> relates a state of the phase to the tasks that have
  finished.
\<close>

definition task_file :: "env \<Rightarrow> string \<Rightarrow> manifest_file \<Rightarrow> ((bool \<times> string list) \<times> string) option" where
  "task_file e tdir f =
     (case fetch_json e (api_url (Num (projectID f)) (Num (fileID f))) of
        None \<Rightarrow> None
      | Some info \<Rightarrow>
          (case fetch_body e (downloadUrl info) of
             None \<Rightarrow> None
           | Some bytes \<Rightarrow> Some (loc (join [tdir, ''mods'', fileName info]), bytes)))"

definition task_files :: "env \<Rightarrow> string \<Rightarrow> manifest_file list \<Rightarrow> ((bool \<times> string list) \<times> string) list" where
  "task_files e tdir ms = List.map_filter (task_file e tdir) ms"

definition written :: "filesystem \<Rightarrow> ((bool \<times> string list) \<times> string) list \<Rightarrow> filesystem" where
  "written t ds = foldl (\<lambda>t' (l, b). t'(l \<mapsto> File b)) t ds"

definition fs_inv :: "env \<Rightarrow> string \<Rightarrow> manifest_file list \<Rightarrow> filesystem \<Rightarrow> dl_state \<Rightarrow> bool" where
  "fs_inv e tdir ms t st =
     (rejected st \<noteq> None \<or>
      (\<exists>finished. mset finished + mset (inflight st) + mset (waiting st) = mset ms \<and>
                  list_all (\<lambda>f. task_file e tdir f \<noteq> None) finished \<and>
                  fs (world_of st) = written t (task_files e tdir finished)))"

subsection \<open>\<open>expandOverrides\<close>\<close>

text \<open>The loop over the entries. \<^verbatim>\<open>src/index.ts\<close> creates the directory of a directory
  marker and goes on; \<^verbatim>\<open>part_000\<close> has no such branch and treats every entry as a
  file.\<close>

fun expand_entries ::
  "variant \<Rightarrow> string \<Rightarrow> (string \<times> zipobject) list \<Rightarrow> world \<Rightarrow> (error + unit) \<times> world" where
  "expand_entries v tdir [] w = (Inr (), w)"
| "expand_entries v tdir ((path, fileData) # rest) w =
     (if v = Index_ts \<and> dir fileData then
        (case mkdir_recursive (fs w) (join [tdir, path]) of
           Inl err \<Rightarrow> (Inl err, w)
         | Inr t \<Rightarrow> expand_entries v tdir rest (w\<lparr>fs := t\<rparr>))
      else
        (case mkdir_recursive (fs w) (join [tdir, dirname path]) of
           Inl err \<Rightarrow> (Inl err, w)
         | Inr t \<Rightarrow>
             (case write_file t (join [tdir, path]) (content fileData) of
                Inl err \<Rightarrow> (Inl err, w\<lparr>fs := t\<rparr>)
              | Inr t' \<Rightarrow>
                  expand_entries v tdir rest (write_stderr (path @ [CHR 0x0A]) (w\<lparr>fs := t'\<rparr>)))))"

definition expandOverrides ::
  "variant \<Rightarrow> jszip \<Rightarrow> string \<Rightarrow> world \<Rightarrow> (error + unit) \<times> world" where
  "expandOverrides v modpack tdir w =
     (let w1 = write_stderr ''Expanding overrides...'' w
      in case zip_folder modpack ''overrides'' of
           None \<Rightarrow> (Inl (Error ''missing overrides in modpack zip''), w1)
         | Some overrides \<Rightarrow> expand_entries v tdir (zip_forEach overrides) w1)"





subsection \<open>The top level\<close>

text \<open>The steps of the top-level function in their order, stopping at the first
  error.\<close>

definition run :: "variant \<Rightarrow> env \<Rightarrow> nat list \<Rightarrow> string list \<Rightarrow> world \<Rightarrow> (error + unit) \<times> world" where
  "run v e sched argv w =
     (case parseCommandLineArgs e argv w of
        (Inl err, w1) \<Rightarrow> (Inl err, w1)
      | (Inr a, w1) \<Rightarrow>
          (case fetchModFileInfo e (Str (addonId a)) (Str (fileId a)) w1 of
             (Inl err, w2) \<Rightarrow> (Inl err, w2)
           | (Inr modpackInfo, w2) \<Rightarrow>
               let w3 = write_stderr (''Modpack name: '' @ displayName modpackInfo @ [CHR 0x0A]) w2;
                   w4 = write_stderr ''Downloading modpack zip...'' w3
               in (case downloadModpack e modpackInfo w4 of
                     (Inl err, w5) \<Rightarrow> (Inl err, w5)
                   | (Inr modpack, w5) \<Rightarrow>
                       let w6 = write_stderr (''done'' @ [CHR 0x0A]) w5
                       in (case downloadMods v e sched modpack (targetDir a) w6 of
                             (Inl err, w7) \<Rightarrow> (Inl err, w7)
                           | (Inr u, w7) \<Rightarrow>
                               (case expandOverrides v modpack (targetDir a) w7 of
                                  (Inl err, w8) \<Rightarrow> (Inl err, w8)
                                | (Inr u', w8) \<Rightarrow>
                                    (Inr (), write_stderr (''Finish!'' @ [CHR 0x0A]) w8))))))"

text \<open>How the process ends: \<^verbatim>\<open>process.exit\<close> ends it with its code in both variants;
  any other error is caught and printed with \<^verbatim>\<open>console.error\<close> in \<^verbatim>\<open>src/index.ts\<close>
  and is an unhandled rejection in \<^verbatim>\<open>part_000\<close>.\<close>

datatype ending = Finished | Exited nat | Caught error | Unhandled error

definition main :: "variant \<Rightarrow> env \<Rightarrow> nat list \<Rightarrow> string list \<Rightarrow> world \<Rightarrow> ending \<times> world" where
  "main v e sched argv w =
     (case run v e sched argv w of
        (Inr u, w1) \<Rightarrow> (Finished, w1)
      | (Inl (ProcessExit n), w1) \<Rightarrow> (Exited n, w1)
      | (Inl err, w1) \<Rightarrow>
          (case v of
             Index_ts \<Rightarrow> (Caught err, write_stderr (inspect e err) w1)
           | Part_000 \<Rightarrow> (Unhandled err, w1)))"

subsection \<open>The interface's end-to-end example\<close>

text \<open>
  The remote service of the example: the manifest's one entry \<open>(1, 2)\<close> resolves to
  \<^verbatim>\<open>a.jar\<close>, display name \<open>A\<close>, served as ten bytes. \<open>empty_pack\<close> is an archive with
  no entry, \<open>manifest_only_pack\<close> one whose only entry is the manifest, \<open>marker_pack\<close> one whose
  overrides folder holds the directory marker \<^verbatim>\<open>config/\<close> and nothing else.
\<close>

definition example_info :: ModFileInfo where
  "example_info =
     \<lparr>id_num = 2, displayName = ''A'', fileName = ''a.jar'', downloadUrl = ''http://x/a.jar''\<rparr>"

text \<open>Two more files of the service: \<^verbatim>\<open>b.jar\<close>, and a file of another project that is
  also named \<^verbatim>\<open>a.jar\<close>.\<close>

definition second_info :: ModFileInfo where
  "second_info =
     \<lparr>id_num = 4, displayName = ''B'', fileName = ''b.jar'', downloadUrl = ''http://x/b.jar''\<rparr>"

definition namesake_info :: ModFileInfo where
  "namesake_info =
     \<lparr>id_num = 6, displayName = ''C'', fileName = ''a.jar'', downloadUrl = ''http://y/a.jar''\<rparr>"

definition example_manifest :: zipobject where
  "example_manifest = \<lparr>dir = False, content = ''{\"files\":[{\"projectID\":1,\"fileID\":2}]}''\<rparr>"

text \<open>Manifests of two entries, each in both orders: \<^verbatim>\<open>a.jar\<close> with \<^verbatim>\<open>b.jar\<close>, and
  \<^verbatim>\<open>a.jar\<close> with its namesake.\<close>

definition two_mods :: "manifest_file list" where
  "two_mods = [\<lparr>projectID = 1, fileID = 2\<rparr>, \<lparr>projectID = 3, fileID = 4\<rparr>]"

definition namesakes :: "manifest_file list" where
  "namesakes = [\<lparr>projectID = 1, fileID = 2\<rparr>, \<lparr>projectID = 5, fileID = 6\<rparr>]"

definition json_a_b :: string where
  "json_a_b = ''{\"files\":[{\"projectID\":1,\"fileID\":2},{\"projectID\":3,\"fileID\":4}]}''"

definition json_b_a :: string where
  "json_b_a = ''{\"files\":[{\"projectID\":3,\"fileID\":4},{\"projectID\":1,\"fileID\":2}]}''"

definition json_a_c :: string where
  "json_a_c = ''{\"files\":[{\"projectID\":1,\"fileID\":2},{\"projectID\":5,\"fileID\":6}]}''"

definition json_c_a :: string where
  "json_c_a = ''{\"files\":[{\"projectID\":5,\"fileID\":6},{\"projectID\":1,\"fileID\":2}]}''"

text \<open>The modpack itself: project 7, file 8, an archive (its bytes stand as \<open>PK\<close>)
  that holds the example's manifest and nothing else.\<close>

definition pack_info :: ModFileInfo where
  "pack_info =
     \<lparr>id_num = 8, displayName = ''Pack'', fileName = ''pack.zip'',
        downloadUrl = ''http://x/pack.zip''\<rparr>"

definition example_env :: env where
  "example_env =
     \<lparr>new_URL = (\<lambda>s. case URL_new s of None \<Rightarrow> None | Some r \<Rightarrow> r),
      fetch_json = [api_url (Num 1) (Num 2) \<mapsto> example_info,
                     api_url (Num 3) (Num 4) \<mapsto> second_info,
                     api_url (Num 5) (Num 6) \<mapsto> namesake_info,
                     api_url (Str ''7'') (Str ''8'') \<mapsto> pack_info],
      fetch_body = [''http://x/a.jar'' \<mapsto> ''0123456789'', ''http://x/b.jar'' \<mapsto> ''bb'',
                    ''http://y/a.jar'' \<mapsto> ''cc'', ''http://x/pack.zip'' \<mapsto> ''PK''],
      load_zip = [''PK'' \<mapsto> \<lparr>entries = [(''manifest.json'', example_manifest)], root = []\<rparr>],
      JSON_parse =
        map_of [(content example_manifest, \<lparr>files = [\<lparr>projectID = 1, fileID = 2\<rparr>]\<rparr>),
                (json_a_b, \<lparr>files = two_mods\<rparr>), (json_b_a, \<lparr>files = rev two_mods\<rparr>),
                (json_a_c, \<lparr>files = namesakes\<rparr>), (json_c_a, \<lparr>files = rev namesakes\<rparr>)],
      inspect = (\<lambda>err. ''error'')\<rparr>"

definition empty_pack :: jszip where
  "empty_pack = \<lparr>entries = [], root = []\<rparr>"

definition marker_pack :: jszip where
  "marker_pack =
     \<lparr>entries = [(''manifest.json'', example_manifest),
                 (''overrides/'', \<lparr>dir = True, content = []\<rparr>),
                 (''overrides/config/'', \<lparr>dir = True, content = []\<rparr>)],
      root = []\<rparr>"

definition manifest_only_pack :: jszip where
  "manifest_only_pack = \<lparr>entries = [(''manifest.json'', example_manifest)], root = []\<rparr>"

text \<open>An archive with a given manifest text and no other entry, and one with the
  manifest of \<^verbatim>\<open>a.jar\<close> and \<^verbatim>\<open>b.jar\<close>, a directory marker and a file to override.\<close>

definition pack_with :: "string \<Rightarrow> jszip" where
  "pack_with text = \<lparr>entries = [(''manifest.json'', \<lparr>dir = False, content = text\<rparr>)], root = []\<rparr>"

definition full_pack :: jszip where
  "full_pack =
     \<lparr>entries = [(''manifest.json'', \<lparr>dir = False, content = json_a_b\<rparr>),
                 (''overrides/'', \<lparr>dir = True, content = []\<rparr>),
                 (''overrides/config/'', \<lparr>dir = True, content = []\<rparr>),
                 (''overrides/config/a.cfg'', \<lparr>dir = False, content = ''x=1''\<rparr>)],
      root = []\<rparr>"

text \<open>Two more archives with an \<^verbatim>\<open>overrides/\<close> subtree. In the first the manifest lists
  two mods that share the remote file name \<^verbatim>\<open>a.jar\<close>. In the second two file entries,
  \<^verbatim>\<open>overrides/a.cfg\<close> and \<^verbatim>\<open>overrides/./a.cfg\<close>, name one place.\<close>

definition namesake_pack :: jszip where
  "namesake_pack =
     \<lparr>entries = [(''manifest.json'', \<lparr>dir = False, content = json_a_c\<rparr>),
                 (''overrides/'', \<lparr>dir = True, content = []\<rparr>),
                 (''overrides/config/'', \<lparr>dir = True, content = []\<rparr>),
                 (''overrides/config/a.cfg'', \<lparr>dir = False, content = ''x=1''\<rparr>)],
      root = []\<rparr>"

definition twice_pack :: jszip where
  "twice_pack =
     \<lparr>entries = [(''manifest.json'', \<lparr>dir = False, content = json_a_b\<rparr>),
                 (''overrides/'', \<lparr>dir = True, content = []\<rparr>),
                 (''overrides/a.cfg'', \<lparr>dir = False, content = ''x=1''\<rparr>),
                 (''overrides/./a.cfg'', \<lparr>dir = False, content = ''x=2''\<rparr>)],
      root = []\<rparr>"

text \<open>A download phase with all six slots taken and no task waiting.\<close>

definition six_in_flight :: dl_state where
  "six_in_flight =
     \<lparr>waiting = [],
      inflight = map (\<lambda>k. \<lparr>projectID = k, fileID = k\<rparr>) [1, 2, 3, 4, 5, 6],
      downloadedCount = 0, rejected = None, world_of = empty_world\<rparr>"

text \<open>A disk on which \<^verbatim>\<open>t/mods\<close> exists, and one on which \<^verbatim>\<open>t/mods\<close> is a file.\<close>

definition blocked_world :: world where
  "blocked_world =
     \<lparr>fs = [(False, [''t'']) \<mapsto> Dir, (False, [''t'', ''mods'']) \<mapsto> File ''x''],
      stderr = [], requests = []\<rparr>"


section \<open>Properties\<close>

subsection \<open>Parsing the command line\<close>

lemma split_on_nonempty: "split_on d s \<noteq> []"
  by (induction s) (auto split: list.splits)

lemma split_on_append:
  "d \<notin> set xs \<Longrightarrow> split_on d (xs @ d # rest) = xs # split_on d rest"
  by (induction xs) (auto split: list.splits)

lemma split_on_whole: "d \<notin> set xs \<Longrightarrow> split_on d xs = [xs]"
  by (induction xs) (auto split: list.splits)

lemma percent_decode_plain: "CHR ''%'' \<notin> set s \<Longrightarrow> percent_decode s = s"
  by (induction s rule: percent_decode.induct) auto

lemma percent_decode_literal: "\<not> has_escape s \<Longrightarrow> percent_decode s = s"
  by (induction s rule: percent_decode.induct) (auto split: option.splits bool.splits)

lemma high_escape_has: "high_escape s \<Longrightarrow> has_escape s"
  by (induction s rule: high_escape.induct) (auto split: option.splits bool.splits)

lemma high_escape_skip: "c \<noteq> CHR ''%'' \<Longrightarrow> high_escape (c # r) = high_escape r"
proof (cases r)
  case (Cons x r')
  assume "c \<noteq> CHR ''%''"
  then show ?thesis using Cons by (cases r') simp_all
qed simp

lemma high_escape_append:
  "\<not> has_escape X \<Longrightarrow> hex_value d = None \<Longrightarrow> d \<noteq> CHR ''%'' \<Longrightarrow>
   high_escape (X @ d # r) = high_escape r"
  apply (induction X rule: has_escape.induct)
     apply (auto split: option.splits bool.splits)[1]
    apply (simp add: high_escape_skip)
   apply (cases r; auto simp: high_escape_skip split: option.splits bool.splits)
  apply (cases r; auto simp: high_escape_skip split: option.splits bool.splits)
  done

lemma c0_literals:
  "c0_or_space (CHR 0x09)" "c0_or_space (CHR 0x0A)" "c0_or_space (CHR 0x0D)"
  "\<not> c0_or_space (CHR ''c'')" "\<not> c0_or_space (CHR ''='')"
  by (simp_all add: c0_or_space_def)

lemma kept_set:
  assumes "list_all kept s" and "c \<in> set s"
  shows "c \<noteq> CHR ''&''" "c \<noteq> CHR ''#''" "c \<noteq> CHR ''+''" "\<not> tab_or_newline c"
proof -
  from assms have p: "kept c" by (simp add: list_all_iff)
  then show "c \<noteq> CHR ''&''" "c \<noteq> CHR ''#''" "c \<noteq> CHR ''+''"
    by (auto simp: kept_def)
  from p show "\<not> tab_or_newline c" by (simp add: kept_def)
qed

lemma form_decode_literal: "literal s \<Longrightarrow> form_decode s = s"
proof -
  assume l: "literal s"
  then have p: "list_all kept s" and n: "\<not> has_escape s"
    by (simp_all add: literal_def)
  have "map (\<lambda>c. if c = CHR ''+'' then CHR '' '' else c) s = s"
    using kept_set(3)[OF p] by (simp add: map_idI)
  then show ?thesis
    using n by (simp add: form_decode_def percent_decode_literal)
qed

lemma unchanged_end: "s \<noteq> [] \<Longrightarrow> \<not> P (last s) \<Longrightarrow> rev (dropWhile P (rev s)) = s"
  by (cases s rule: rev_cases) auto

lemma trim_unchanged:
  assumes "s \<noteq> []" "\<not> c0_or_space (hd s)" "\<not> c0_or_space (last s)"
  shows "trim s = s"
proof -
  from assms(1,2) have "dropWhile c0_or_space s = s" by (cases s) auto
  then show ?thesis using unchanged_end[of s c0_or_space] assms(1,3) by (simp add: trim_def)
qed

lemma form_decode_names:
  "form_decode ''addonId'' = ''addonId''" "form_decode ''fileId'' = ''fileId''"
  by (simp_all add: form_decode_def percent_decode_plain)

lemma name_value_literal:
  "literal v \<Longrightarrow> name_value (''addonId='' @ v) = (''addonId'', v)"
  "literal v \<Longrightarrow> name_value (''fileId='' @ v) = (''fileId'', v)"
  using form_decode_names by (simp_all add: name_value_def form_decode_literal)

lemma trim_install_uri:
  assumes "literal X" "clean Y"
  shows "filter (\<lambda>c. \<not> tab_or_newline c) (trim (install_uri X Y)) = install_uri X Y"
proof -
  have x: "list_all kept X"
    using assms(1) by (simp add: literal_def)
  have y: "list_all kept Y" "Y = [] \<or> \<not> c0_or_space (last Y)"
    using assms(2) by (simp_all add: clean_def literal_def)
  have ne: "install_uri X Y \<noteq> []" and h: "hd (install_uri X Y) = CHR ''c''"
    and l: "last (install_uri X Y) = (if Y = [] then CHR ''='' else last Y)"
    by (simp_all add: install_uri_def)
  have "\<not> c0_or_space (last (install_uri X Y))"
    using c0_literals(5) y(2) by (auto simp: l)
  then have "trim (install_uri X Y) = install_uri X Y"
    using ne h c0_literals(4) by (intro trim_unchanged) simp_all
  moreover have "\<forall>c \<in> set (install_uri X Y). \<not> tab_or_newline c"
    using kept_set(4)[OF x] kept_set(4)[OF y(1)]
    by (auto simp: install_uri_def tab_or_newline_def)
  ultimately show ?thesis by simp
qed

lemma query_install_uri:
  assumes "literal X" "literal Y"
  shows "parse_query (''addonId='' @ X @ ''&fileId='' @ Y) = [(''addonId'', X), (''fileId'', Y)]"
    and "\<not> high_escape (''addonId='' @ X @ ''&fileId='' @ Y)"
proof -
  have x: "list_all kept X" "\<not> has_escape X" and y: "list_all kept Y" "\<not> has_escape Y"
    using assms by (simp_all add: literal_def)
  have a: "CHR ''&'' \<notin> set (''addonId='' @ X)"
    using kept_set(1)[OF x(1)] by auto
  have b: "CHR ''&'' \<notin> set (''fileId='' @ Y)"
    using kept_set(1)[OF y(1)] by auto
  have "split_on CHR ''&'' ((''addonId='' @ X) @ CHR ''&'' # (''fileId='' @ Y))
          = [''addonId='' @ X, ''fileId='' @ Y]"
    using split_on_append[OF a] split_on_whole[OF b] by simp
  then have "split_on CHR ''&'' (''addonId='' @ X @ ''&fileId='' @ Y) = [''addonId='' @ X, ''fileId='' @ Y]"
    by simp
  then show "parse_query (''addonId='' @ X @ ''&fileId='' @ Y) = [(''addonId'', X), (''fileId'', Y)]"
    using name_value_literal(1)[OF assms(1)] name_value_literal(2)[OF assms(2)]
    by (simp add: parse_query_def)
  have "high_escape (''addonId='' @ Z) = high_escape Z" for Z
    by (simp add: high_escape_skip del: high_escape.simps)
  moreover have "high_escape (X @ CHR ''&'' # W) = high_escape W" for W
    by (rule high_escape_append[OF x(2)]) (simp_all add: hex_value_def)
  moreover have "high_escape (''fileId='' @ Y) = high_escape Y"
    by (simp add: high_escape_skip del: high_escape.simps)
  ultimately have "high_escape (''addonId='' @ X @ ''&fileId='' @ Y) = high_escape Y"
    by simp
  then show "\<not> high_escape (''addonId='' @ X @ ''&fileId='' @ Y)"
    using y(2) high_escape_has by blast
qed

lemma URL_new_install_uri:
  assumes "literal X" "clean Y"
  shows "URL_new (install_uri X Y) =
           Some (Some \<lparr>protocol = ''curseforge:'', hostname = ''install'',
                       searchParams = [(''addonId'', X), (''fileId'', Y)]\<rparr>)"
proof -
  have y: "literal Y" using assms(2) by (simp add: clean_def)
  have nf: "\<forall>c \<in> set X. c \<noteq> CHR ''#''" "takeWhile (\<lambda>c. c \<noteq> CHR ''#'') Y = Y"
    using kept_set(2)[of X] kept_set(2)[of Y] assms(1) y by (auto simp: literal_def)
  have h: "host_of ''install'' = Some (Some ''install'')"
    by (simp add: host_of_def forbidden_host_char_def decimal_def ascii_digit_def
          host_plain_def ascii_alpha_def)
  have sp: "\<not> special_scheme ''curseforge''"
    by (simp add: special_scheme_def)
  show ?thesis
    unfolding URL_new_def trim_install_uri[OF assms]
    using nf(1) h sp query_install_uri[OF assms(1) y]
    by (simp add: nf(2) install_uri_def scheme_char_def ascii_alpha_def ascii_digit_def to_lower_def)
qed

lemma parse_args_url:
  assumes "s \<noteq> []" "s \<noteq> ''--help''" "tdir \<noteq> []"
  shows "parseCommandLineArgs e [n, sc, s, tdir] w =
    (case new_URL e s of
       None \<Rightarrow> (Inl (TypeError ''Invalid URL''), w)
     | Some u \<Rightarrow>
         if protocol u \<noteq> ''curseforge:'' \<or> hostname u \<noteq> ''install'' then (Inl (Error ''bad url''), w)
         else if falsy (searchParams_get u ''addonId'') \<or> falsy (searchParams_get u ''fileId'')
           then (Inl (Error ''bad url''), w)
         else (Inr \<lparr>targetDir = tdir, addonId = the (searchParams_get u ''addonId''),
                    fileId = the (searchParams_get u ''fileId'')\<rparr>, w))"
  using assms
  by (simp add: parseCommandLineArgs_def numeral_2_eq_2 numeral_3_eq_3 Let_def split: option.splits)

lemma install_uri_not_usage: "install_uri X Y \<noteq> []" "install_uri X Y \<noteq> ''--help''"
  by (simp_all add: install_uri_def)

lemma new_URL_install_uri:
  assumes "literal X" "clean Y" "follows_standard e (install_uri X Y)"
  shows "new_URL e (install_uri X Y) =
           Some \<lparr>protocol = ''curseforge:'', hostname = ''install'',
                 searchParams = [(''addonId'', X), (''fileId'', Y)]\<rparr>"
  using assms(3) URL_new_install_uri[OF assms(1,2)] by (simp add: follows_standard_def)

text \<open>
  Claim C1, as the code has it. On a platform whose \<^verbatim>\<open>new URL\<close> follows the standard on
  the URI, for \<open>X\<close> and \<open>Y\<close> that are not empty and literal, \<open>Y\<close> not ending in a
  control or a space, parsing
  \<^verbatim>\<open>curseforge://install?addonId=X&fileId=Y\<close> with a target directory returns exactly
  \<open>X\<close>, \<open>Y\<close> and the directory. Every other outcome the claim names is an error,
  whatever the platform's parser: a string \<^verbatim>\<open>new URL\<close> rejects is a \<open>TypeError\<close>; a URL
  whose scheme is not \<open>curseforge\<close>, whose host is not \<open>install\<close>, or which lacks
  \<open>addonId\<close> or \<open>fileId\<close> is the error \<open>bad url\<close>.
\<close>

theorem parse_install_uri:
  "tdir \<noteq> [] \<Longrightarrow>
   (X \<noteq> [] \<and> Y \<noteq> [] \<and> literal X \<and> clean Y \<and> follows_standard e (install_uri X Y) \<longrightarrow>
      parseCommandLineArgs e [n, sc, install_uri X Y, tdir] w
        = (Inr \<lparr>targetDir = tdir, addonId = X, fileId = Y\<rparr>, w)) \<and>
   (s1 \<noteq> [] \<and> s1 \<noteq> ''--help'' \<and> new_URL e s1 = None \<longrightarrow>
      parseCommandLineArgs e [n, sc, s1, tdir] w = (Inl (TypeError ''Invalid URL''), w)) \<and>
   (s2 \<noteq> [] \<and> s2 \<noteq> ''--help'' \<and> new_URL e s2 = Some u \<and>
    (protocol u \<noteq> ''curseforge:'' \<or> hostname u \<noteq> ''install'' \<or>
     searchParams_get u ''addonId'' = None \<or> searchParams_get u ''fileId'' = None) \<longrightarrow>
      parseCommandLineArgs e [n, sc, s2, tdir] w = (Inl (Error ''bad url''), w))"
proof (intro conjI impI)
  assume t: "tdir \<noteq> []"
  { assume a: "X \<noteq> [] \<and> Y \<noteq> [] \<and> literal X \<and> clean Y \<and> follows_standard e (install_uri X Y)"
    then have "new_URL e (install_uri X Y) =
        Some \<lparr>protocol = ''curseforge:'', hostname = ''install'',
              searchParams = [(''addonId'', X), (''fileId'', Y)]\<rparr>"
      by (simp add: new_URL_install_uri)
    with a show "parseCommandLineArgs e [n, sc, install_uri X Y, tdir] w
        = (Inr \<lparr>targetDir = tdir, addonId = X, fileId = Y\<rparr>, w)"
      by (simp add: parse_args_url[OF install_uri_not_usage t] searchParams_get_def) }
  { assume "s1 \<noteq> [] \<and> s1 \<noteq> ''--help'' \<and> new_URL e s1 = None"
    then show "parseCommandLineArgs e [n, sc, s1, tdir] w = (Inl (TypeError ''Invalid URL''), w)"
      using t by (simp add: parse_args_url) }
  { assume "s2 \<noteq> [] \<and> s2 \<noteq> ''--help'' \<and> new_URL e s2 = Some u \<and>
      (protocol u \<noteq> ''curseforge:'' \<or> hostname u \<noteq> ''install'' \<or>
       searchParams_get u ''addonId'' = None \<or> searchParams_get u ''fileId'' = None)"
    then show "parseCommandLineArgs e [n, sc, s2, tdir] w = (Inl (Error ''bad url''), w)"
      using t by (auto simp: parse_args_url) }
qed

lemmas url_eval =
  URL_new_def trim_def c0_or_space_def tab_or_newline_def scheme_char_def ascii_alpha_def
  ascii_digit_def host_of_def Let_def to_lower_def parse_query_def name_value_def
  form_decode_def forbidden_host_char_def decimal_def hex_value_def special_scheme_def
  host_plain_def

lemma char_of_65: "char_of (65::nat) = CHR ''A''"
  by code_simp

lemma url_samples:
  "URL_new ''install'' = Some None"
  "URL_new ''gopher://install?addonId=1&fileId=2'' =
     Some (Some \<lparr>protocol = ''gopher:'', hostname = ''install'',
                 searchParams = [(''addonId'', ''1''), (''fileId'', ''2'')]\<rparr>)"
  "URL_new ''curseforge://install?addonId=&fileId=2'' =
     Some (Some \<lparr>protocol = ''curseforge:'', hostname = ''install'',
                 searchParams = [(''addonId'', []), (''fileId'', ''2'')]\<rparr>)"
  by (simp_all add: url_eval char_of_65)

lemma url_changed:
  "URL_new (install_uri [] ''2'') = Some (Some \<lparr>protocol = ''curseforge:'', hostname = ''install'',
     searchParams = [(''addonId'', []), (''fileId'', ''2'')]\<rparr>)"
  "URL_new (install_uri ''1&'' ''2'') = Some (Some \<lparr>protocol = ''curseforge:'', hostname = ''install'',
     searchParams = [(''addonId'', ''1''), (''fileId'', ''2'')]\<rparr>)"
  "URL_new (install_uri ''1#'' ''2'') = Some (Some \<lparr>protocol = ''curseforge:'', hostname = ''install'',
     searchParams = [(''addonId'', ''1'')]\<rparr>)"
  "URL_new (install_uri ''1+'' ''2'') = Some (Some \<lparr>protocol = ''curseforge:'', hostname = ''install'',
     searchParams = [(''addonId'', ''1 ''), (''fileId'', ''2'')]\<rparr>)"
  "URL_new (install_uri ''%41'' ''2'') = Some (Some \<lparr>protocol = ''curseforge:'', hostname = ''install'',
     searchParams = [(''addonId'', ''A''), (''fileId'', ''2'')]\<rparr>)"
  "URL_new (install_uri [CHR ''1'', CHR 0x09] ''2'') = Some (Some \<lparr>protocol = ''curseforge:'',
     hostname = ''install'', searchParams = [(''addonId'', ''1''), (''fileId'', ''2'')]\<rparr>)"
  "URL_new (install_uri [CHR ''1'', CHR 0x0A] ''2'') = Some (Some \<lparr>protocol = ''curseforge:'',
     hostname = ''install'', searchParams = [(''addonId'', ''1''), (''fileId'', ''2'')]\<rparr>)"
  "URL_new (install_uri [CHR ''1'', CHR 0x0D] ''2'') = Some (Some \<lparr>protocol = ''curseforge:'',
     hostname = ''install'', searchParams = [(''addonId'', ''1''), (''fileId'', ''2'')]\<rparr>)"
  by (simp_all add: install_uri_def url_eval char_of_65)

lemma url_changed_Y:
  "URL_new (install_uri ''1'' []) = Some (Some \<lparr>protocol = ''curseforge:'', hostname = ''install'',
     searchParams = [(''addonId'', ''1''), (''fileId'', [])]\<rparr>)"
  "URL_new (install_uri ''1'' ''2&'') = Some (Some \<lparr>protocol = ''curseforge:'', hostname = ''install'',
     searchParams = [(''addonId'', ''1''), (''fileId'', ''2'')]\<rparr>)"
  "URL_new (install_uri ''1'' ''2#'') = Some (Some \<lparr>protocol = ''curseforge:'', hostname = ''install'',
     searchParams = [(''addonId'', ''1''), (''fileId'', ''2'')]\<rparr>)"
  "URL_new (install_uri ''1'' ''2+'') = Some (Some \<lparr>protocol = ''curseforge:'', hostname = ''install'',
     searchParams = [(''addonId'', ''1''), (''fileId'', ''2 '')]\<rparr>)"
  "URL_new (install_uri ''1'' ''%41'') = Some (Some \<lparr>protocol = ''curseforge:'', hostname = ''install'',
     searchParams = [(''addonId'', ''1''), (''fileId'', ''A'')]\<rparr>)"
  "URL_new (install_uri ''1'' [CHR 0x09, CHR ''2'']) = Some (Some \<lparr>protocol = ''curseforge:'',
     hostname = ''install'', searchParams = [(''addonId'', ''1''), (''fileId'', ''2'')]\<rparr>)"
  "URL_new (install_uri ''1'' [CHR 0x0A, CHR ''2'']) = Some (Some \<lparr>protocol = ''curseforge:'',
     hostname = ''install'', searchParams = [(''addonId'', ''1''), (''fileId'', ''2'')]\<rparr>)"
  "URL_new (install_uri ''1'' [CHR 0x0D, CHR ''2'']) = Some (Some \<lparr>protocol = ''curseforge:'',
     hostname = ''install'', searchParams = [(''addonId'', ''1''), (''fileId'', ''2'')]\<rparr>)"
  "URL_new (install_uri ''1'' ''2 '') = Some (Some \<lparr>protocol = ''curseforge:'', hostname = ''install'',
     searchParams = [(''addonId'', ''1''), (''fileId'', ''2'')]\<rparr>)"
  "URL_new (install_uri ''1'' [CHR ''2'', CHR 0x01]) = Some (Some \<lparr>protocol = ''curseforge:'',
     hostname = ''install'', searchParams = [(''addonId'', ''1''), (''fileId'', ''2'')]\<rparr>)"
  by (simp_all add: install_uri_def url_eval char_of_65)

lemma example_new_URL: "new_URL example_env s = (case URL_new s of None \<Rightarrow> None | Some r \<Rightarrow> r)"
  by (simp add: example_env_def)

theorem parse_install_uri_witness:
  "follows_standard example_env (install_uri ''%zz'' ''a=b c'') \<and>
   parseCommandLineArgs example_env [''node'', ''index.js'', install_uri ''%zz'' ''a=b c'', ''t'']
       empty_world
     = (Inr \<lparr>targetDir = ''t'', addonId = ''%zz'', fileId = ''a=b c''\<rparr>, empty_world) \<and>
   parseCommandLineArgs example_env [''node'', ''index.js'', ''install'', ''t''] empty_world
     = (Inl (TypeError ''Invalid URL''), empty_world) \<and>
   parseCommandLineArgs example_env
       [''node'', ''index.js'', ''gopher://install?addonId=1&fileId=2'', ''t''] empty_world
     = (Inl (Error ''bad url''), empty_world)"
  using parse_install_uri[where tdir = "''t''" and X = "''%zz''" and Y = "''a=b c''"
      and n = "''node''" and sc = "''index.js''" and w = empty_world and e = example_env
      and ?s1.0 = "''install''" and ?s2.0 = "''gopher://install?addonId=1&fileId=2''"
      and u = "\<lparr>protocol = ''gopher:'', hostname = ''install'',
           searchParams = [(''addonId'', ''1''), (''fileId'', ''2'')]\<rparr>"]
    URL_new_install_uri[of "''%zz''" "''a=b c''"]
  by (simp add: example_new_URL url_samples follows_standard_def kept_def clean_def literal_def
        tab_or_newline_def c0_or_space_def hex_value_def)

text \<open>
  The claim as written fails at each of these pairs \<open>(X, Y)\<close>, on a platform that follows
  the standard. An empty \<open>X\<close> or \<open>Y\<close> is rejected by the guard of line 28. In the others one
  value holds one character the amended statement excludes, and the run does not return
  it: an ampersand ends the value, and a number sign ends the query, so that after \<open>X\<close>
  it removes \<open>fileId\<close>; a plus sign is read as a space and \<^verbatim>\<open>%41\<close> as \<open>A\<close>; a tab, a
  line feed or a carriage return is removed; a space or a control at the end of \<open>Y\<close> is
  stripped.
\<close>

theorem parse_install_uri_counterexample:
  "list_all (\<lambda>(X, Y).
       fst (parseCommandLineArgs example_env [''node'', ''index.js'', install_uri X Y, ''t'']
              empty_world)
         \<noteq> Inr \<lparr>targetDir = ''t'', addonId = X, fileId = Y\<rparr>)
     [([], ''2''), (''1'', []),
      (''1&'', ''2''), (''1#'', ''2''), (''1+'', ''2''), (''%41'', ''2''),
      ([CHR ''1'', CHR 0x09], ''2''), ([CHR ''1'', CHR 0x0A], ''2''), ([CHR ''1'', CHR 0x0D], ''2''),
      (''1'', ''2&''), (''1'', ''2#''), (''1'', ''2+''), (''1'', ''%41''),
      (''1'', [CHR 0x09, CHR ''2'']), (''1'', [CHR 0x0A, CHR ''2'']), (''1'', [CHR 0x0D, CHR ''2'']),
      (''1'', ''2 ''), (''1'', [CHR ''2'', CHR 0x01])]"
  by (simp add: parse_args_url install_uri_not_usage example_new_URL searchParams_get_def
        url_changed url_changed_Y)

text \<open>
  Claim C9. Whatever the platform's parser, a URL whose \<open>addonId\<close> or \<open>fileId\<close> is
  present with the empty string as its value fails with \<open>bad url\<close>, the error of an
  absent parameter; and on a platform that follows the standard on them so do the URIs
  \<^verbatim>\<open>curseforge://install?addonId=&fileId=Y\<close> and
  \<^verbatim>\<open>curseforge://install?addonId=X&fileId=\<close>.
\<close>

theorem empty_parameter_bad_url:
  "tdir \<noteq> [] \<Longrightarrow>
   (s \<noteq> [] \<and> s \<noteq> ''--help'' \<and> new_URL e s = Some u \<and>
    (searchParams_get u ''addonId'' = Some [] \<or> searchParams_get u ''fileId'' = Some []) \<longrightarrow>
      parseCommandLineArgs e [n, sc, s, tdir] w = (Inl (Error ''bad url''), w)) \<and>
   (clean Y \<and> follows_standard e (install_uri [] Y) \<longrightarrow>
      parseCommandLineArgs e [n, sc, install_uri [] Y, tdir] w = (Inl (Error ''bad url''), w)) \<and>
   (literal X \<and> follows_standard e (install_uri X []) \<longrightarrow>
      parseCommandLineArgs e [n, sc, install_uri X [], tdir] w = (Inl (Error ''bad url''), w))"
proof (intro conjI impI)
  assume t: "tdir \<noteq> []"
  { assume "s \<noteq> [] \<and> s \<noteq> ''--help'' \<and> new_URL e s = Some u \<and>
      (searchParams_get u ''addonId'' = Some [] \<or> searchParams_get u ''fileId'' = Some [])"
    then show "parseCommandLineArgs e [n, sc, s, tdir] w = (Inl (Error ''bad url''), w)"
      using t by (auto simp: parse_args_url) }
  { assume "clean Y \<and> follows_standard e (install_uri [] Y)"
    then show "parseCommandLineArgs e [n, sc, install_uri [] Y, tdir] w = (Inl (Error ''bad url''), w)"
      using new_URL_install_uri[of "[]" Y e]
      by (simp add: parse_args_url[OF install_uri_not_usage t] searchParams_get_def literal_def) }
  { assume "literal X \<and> follows_standard e (install_uri X [])"
    then show "parseCommandLineArgs e [n, sc, install_uri X [], tdir] w = (Inl (Error ''bad url''), w)"
      using new_URL_install_uri[of X "[]" e]
      by (simp add: parse_args_url[OF install_uri_not_usage t] searchParams_get_def clean_def literal_def) }
qed

theorem empty_parameter_bad_url_witness:
  "new_URL example_env ''curseforge://install?addonId=&fileId=2''
     = Some \<lparr>protocol = ''curseforge:'', hostname = ''install'',
             searchParams = [(''addonId'', []), (''fileId'', ''2'')]\<rparr> \<and>
   follows_standard example_env (install_uri [] ''2'') \<and>
   follows_standard example_env (install_uri ''1'' []) \<and>
   parseCommandLineArgs example_env
       [''node'', ''index.js'', ''curseforge://install?addonId=&fileId=2'', ''t'']
     empty_world = (Inl (Error ''bad url''), empty_world) \<and>
   parseCommandLineArgs example_env [''node'', ''index.js'', install_uri ''1'' [], ''t'']
     empty_world = (Inl (Error ''bad url''), empty_world)"
  using empty_parameter_bad_url[where tdir = "''t''"
      and s = "''curseforge://install?addonId=&fileId=2''"
      and u = "\<lparr>protocol = ''curseforge:'', hostname = ''install'',
           searchParams = [(''addonId'', []), (''fileId'', ''2'')]\<rparr>"
      and Y = "''2''" and n = "''node''" and sc = "''index.js''" and w = empty_world and X = "''1''"
      and e = example_env]
    URL_new_install_uri[of "[]" "''2''"] URL_new_install_uri[of "''1''" "[]"]
  by (simp add: example_new_URL url_samples searchParams_get_def follows_standard_def kept_def
        clean_def literal_def tab_or_newline_def c0_or_space_def)

subsection \<open>The file system\<close>

lemma foldl_mkdir:
  "foldl (\<lambda>t' l. t'(l \<mapsto> Dir)) t ls l = (if l \<in> set ls then Some Dir else t l)"
  by (induction ls arbitrary: t) auto

lemma mkdir_recursive_Inr:
  assumes "mkdir_recursive t p = Inr t'"
  shows "t' l = (if l \<in> set (ancestors p) then Some Dir else t l)"
    and "l \<in> set (ancestors p) \<Longrightarrow> \<not> is_file t l"
  using assms
  by (auto simp: mkdir_recursive_def foldl_mkdir list_ex_iff split: if_splits)

lemma is_file_mkdir: "mkdir_recursive t p = Inr t' \<Longrightarrow> is_file t' l = is_file t l"
  using mkdir_recursive_Inr[of t p t' l] by (auto simp: is_file_def)

lemma loc_in_ancestors: "names p \<noteq> [] \<Longrightarrow> loc p \<in> set (ancestors p)"
  by (auto simp: ancestors_def loc_def image_iff Suc_le_eq intro!: bexI[of _ "length (names p)"])

lemma join_snoc:
  assumes "c \<noteq> []" "CHR ''/'' \<notin> set c" "c \<noteq> ''.''" "c \<noteq> ''..''"
  shows "names (join (segs @ [c])) = names (join segs) @ [c]"
    and "absolute (join (segs @ [c])) = absolute (join segs)"
    and "trailing_slash (join (segs @ [c])) = False"
proof -
  have h: "take 1 c \<noteq> ''/''" using assms(1,2) by (cases c) auto
  have l: "last c \<noteq> CHR ''/''" using assms(1,2) last_in_set by metis
  show ab: "absolute (join (segs @ [c])) = absolute (join segs)"
    using assms(1) h by (cases "filter (\<lambda>s. s \<noteq> []) segs") (simp_all add: join_def Let_def)
  show "names (join (segs @ [c])) = names (join segs) @ [c]"
    using assms ab h 
    by (cases "filter (\<lambda>s. s \<noteq> []) segs") (simp_all add: join_def Let_def split_on_whole norm_step_def)
  show "trailing_slash (join (segs @ [c])) = False"
    using assms(1) l by (simp add: join_def Let_def)
qed

lemma mods_dir:
  "names (join [tdir, ''mods'']) = names (join [tdir]) @ [''mods'']"
  "absolute (join [tdir, ''mods'']) = absolute (join [tdir])"
  using join_snoc(1,2)[of "''mods''" "[tdir]"] by simp_all

lemma mods_dir_created:
  assumes "mkdir_recursive t (join [tdir, ''mods'']) = Inr t'"
  shows "t' (loc (join [tdir, ''mods''])) = Some Dir"
  using mkdir_recursive_Inr(1)[OF assms] loc_in_ancestors[of "join [tdir, ''mods'']"]
  by (simp add: mods_dir)

text \<open>
  Claim C3, as the code has it. Where the archive has no \<^verbatim>\<open>manifest.json\<close>,
  \<open>downloadMods\<close> fails, and by then it has made no request, printed nothing and created
  no file: nothing has been downloaded. Its error is \<open>invalid modpack\<close> whenever the
  \<^verbatim>\<open>mkdir\<close> before the check succeeds; where that call fails, the run fails with that
  call's error and leaves the disk as it was.
\<close>

theorem no_manifest_invalid_modpack:
  "zip_file modpack ''manifest.json'' = None \<Longrightarrow>
   (\<exists>err. fst (downloadMods v e sched modpack tdir w) = Inl err) \<and>
   requests (snd (downloadMods v e sched modpack tdir w)) = requests w \<and>
   stderr (snd (downloadMods v e sched modpack tdir w)) = stderr w \<and>
   (\<forall>l. is_file (fs (snd (downloadMods v e sched modpack tdir w))) l = is_file (fs w) l) \<and>
   (mkdir_recursive (fs w) (join [tdir, ''mods'']) = Inr t \<longrightarrow>
      downloadMods v e sched modpack tdir w = (Inl (Error ''invalid modpack''), w\<lparr>fs := t\<rparr>)) \<and>
   (mkdir_recursive (fs w) (join [tdir, ''mods'']) = Inl err \<longrightarrow>
      downloadMods v e sched modpack tdir w = (Inl err, w))"
  by (auto simp: downloadMods_def is_file_mkdir split: sum.splits)

text \<open>
  Claim C10. The directory \<^verbatim>\<open><target>/mods\<close> is created before the manifest is looked
  up: a run that fails with \<open>invalid modpack\<close> leaves that directory on disk, and the
  file system differs from the one before wherever the directory was not there.
\<close>

theorem mods_directory_before_manifest_check:
  "zip_file modpack ''manifest.json'' = None \<Longrightarrow>
   mkdir_recursive (fs w) (join [tdir, ''mods'']) = Inr t \<Longrightarrow>
   downloadMods v e sched modpack tdir w = (Inl (Error ''invalid modpack''), w\<lparr>fs := t\<rparr>) \<and>
   t (loc (join [tdir, ''mods''])) = Some Dir \<and>
   (fs w (loc (join [tdir, ''mods''])) = None \<longrightarrow> t \<noteq> fs w)"
  using mods_dir_created[of "fs w" tdir t]
  by (auto simp: downloadMods_def)

lemmas path_eval = join_def Let_def norm_step_def ancestors_def loc_def is_file_def is_dir_def
  mkdir_recursive_def write_file_def dirname_def

lemma mkdir_example:
  "mkdir_recursive Map.empty (join [''t'', ''mods''])
     = Inr [(False, [''t'']) \<mapsto> Dir, (False, [''t'', ''mods'']) \<mapsto> Dir]"
  by (simp add: path_eval)

theorem no_manifest_invalid_modpack_witness:
  "downloadMods Index_ts example_env [] empty_pack ''t'' empty_world
     = (Inl (Error ''invalid modpack''),
        empty_world\<lparr>fs := [(False, [''t'']) \<mapsto> Dir, (False, [''t'', ''mods'']) \<mapsto> Dir]\<rparr>) \<and>
   requests (snd (downloadMods Index_ts example_env [] empty_pack ''t'' empty_world)) = []"
  using no_manifest_invalid_modpack[where modpack = empty_pack and v = Index_ts and e = example_env
      and sched = "[]" and tdir = "''t''" and w = empty_world
      and t = "[(False, [''t'']) \<mapsto> Dir, (False, [''t'', ''mods'']) \<mapsto> Dir]"]
  by (simp add: empty_pack_def empty_world_def mkdir_example zip_file_def)

text \<open>
  The claim as written fails where \<^verbatim>\<open><target>/mods\<close> cannot be created: on a disk
  where \<^verbatim>\<open>t/mods\<close> is a file, the run on an archive without \<^verbatim>\<open>manifest.json\<close> fails
  at the \<^verbatim>\<open>mkdir\<close> of line 59, with \<open>EEXIST\<close> and not with \<open>invalid modpack\<close>, in
  both variants.
\<close>

theorem no_manifest_invalid_modpack_counterexample:
  "zip_file empty_pack ''manifest.json'' = None \<and>
   downloadMods Index_ts example_env [] empty_pack ''t'' blocked_world
     = (Inl (SystemError ''EEXIST''), blocked_world) \<and>
   downloadMods Part_000 example_env [] empty_pack ''t'' blocked_world
     = (Inl (SystemError ''EEXIST''), blocked_world)"
  by (simp add: downloadMods_def blocked_world_def empty_pack_def zip_file_def path_eval)

theorem mods_directory_before_manifest_check_witness:
  "downloadMods Part_000 example_env [] empty_pack ''t'' empty_world
     = (Inl (Error ''invalid modpack''),
        empty_world\<lparr>fs := [(False, [''t'']) \<mapsto> Dir, (False, [''t'', ''mods'']) \<mapsto> Dir]\<rparr>) \<and>
   [(False, [''t'']) \<mapsto> Dir, (False, [''t'', ''mods'']) \<mapsto> Dir] \<noteq> fs empty_world"
  using mods_directory_before_manifest_check[where modpack = empty_pack and v = Part_000
      and e = example_env and sched = "[]" and tdir = "''t''" and w = empty_world
      and t = "[(False, [''t'']) \<mapsto> Dir, (False, [''t'', ''mods'']) \<mapsto> Dir]"]
  by (simp add: empty_pack_def empty_world_def mkdir_example path_eval zip_file_def)

text \<open>
  Claim C5 fails in \<^verbatim>\<open>part_000\<close>. On the directory marker \<^verbatim>\<open>overrides/config/\<close> the variant
  \<^verbatim>\<open>src/index.ts\<close> creates the directory \<^verbatim>\<open>t/config\<close> and no file; \<^verbatim>\<open>part_000\<close>, which
  lacks the branch on \<^verbatim>\<open>fileData.dir\<close>, opens \<^verbatim>\<open>t/config/\<close> for writing, fails, and
  leaves no directory there.
\<close>

theorem directory_marker_in_both_variants:
  "expandOverrides Part_000 marker_pack ''t'' empty_world
     = (Inl (SystemError ''EISDIR''),
        \<lparr>fs = [(False, [''t'']) \<mapsto> Dir], stderr = [''Expanding overrides...''], requests = []\<rparr>) \<and>
   expandOverrides Index_ts marker_pack ''t'' empty_world
     = (Inr (),
        \<lparr>fs = [(False, [''t'']) \<mapsto> Dir, (False, [''t'', ''config'']) \<mapsto> Dir],
           stderr = [''Expanding overrides...''], requests = []\<rparr>)"
  by (simp add: expandOverrides_def zip_folder_def zip_forEach_def marker_pack_def
        forceTrailingSlash_def write_stderr_def path_eval empty_world_def)

lemma expand_entries_error:
  "fst (expand_entries v tdir es w) = Inl err \<Longrightarrow> \<exists>code. err = SystemError code"
  by (induction v tdir es w rule: expand_entries.induct)
     (auto simp: mkdir_recursive_def write_file_def split: if_splits sum.splits)

lemma zip_folder_Some: "\<exists>view. zip_folder z arg = Some view"
  by (simp add: zip_folder_def Let_def)

lemma overrides_guard_dead:
  "fst (expandOverrides v modpack tdir w) \<noteq> Inl (Error ''missing overrides in modpack zip'')"
proof
  assume a: "fst (expandOverrides v modpack tdir w) = Inl (Error ''missing overrides in modpack zip'')"
  obtain view where "zip_folder modpack ''overrides'' = Some view"
    using zip_folder_Some by blast
  with a show False
    using expand_entries_error[of v tdir "zip_forEach view" "write_stderr ''Expanding overrides...'' w"]
    by (auto simp: expandOverrides_def)
qed

text \<open>
  Claim C4 fails on the code. The guard \<^verbatim>\<open>if (!overrides) throw ...\<close> tests what
  \<^verbatim>\<open>modpack.folder("overrides")\<close> answers, and for an archive with no such folder the
  library creates the folder and answers the view of it: the guard does not fire
  (\<open>overrides_guard_dead\<close>), the loop runs over no entry and \<open>expandOverrides\<close>
  returns normally, in both variants.
\<close>

theorem no_overrides_no_failure:
  "expandOverrides Index_ts manifest_only_pack ''t'' empty_world
     = (Inr (), write_stderr ''Expanding overrides...'' empty_world) \<and>
   expandOverrides Part_000 manifest_only_pack ''t'' empty_world
     = (Inr (), write_stderr ''Expanding overrides...'' empty_world)"
  by (simp add: expandOverrides_def zip_folder_def zip_forEach_def manifest_only_pack_def
        forceTrailingSlash_def Let_def)


subsection \<open>The download phase\<close>

lemma download_task_lists:
  "waiting (download_task e tdir n f st) = waiting st"
  "inflight (download_task e tdir n f st) = inflight st"
  by (simp_all add: download_task_def fetchModFileInfo_def Let_def
        split: option.splits sum.splits prod.splits)

lemma download_task_count:
  "(rejected (download_task e tdir n f st) = rejected st \<and>
    downloadedCount (download_task e tdir n f st) = Suc (downloadedCount st)) \<or>
   (rejected (download_task e tdir n f st) \<noteq> None \<and>
    downloadedCount (download_task e tdir n f st) = downloadedCount st)"
  by (simp add: download_task_def fetchModFileInfo_def Let_def
        split: option.splits sum.splits prod.splits)

lemma limiter_release_fields:
  "downloadedCount (limiter_release limit st) = downloadedCount st"
  "rejected (limiter_release limit st) = rejected st"
  "world_of (limiter_release limit st) = world_of st"
  "length (inflight (limiter_release limit st)) + length (waiting (limiter_release limit st))
     = length (inflight st) + length (waiting st)"
  by (simp_all add: limiter_release_def split: list.splits)

lemma settle_alt:
  "settle v e tdir n i st =
     (case v of
        Index_ts \<Rightarrow> limiter_release downloadLimit (download_task e tdir n (inflight st ! i) (removed i st))
      | Part_000 \<Rightarrow> download_task e tdir n (inflight st ! i) (removed i st))"
  by (cases v) (simp_all add: settle_def removed_def Let_def)

lemma removed_fields:
  "waiting (removed i st) = waiting st"
  "downloadedCount (removed i st) = downloadedCount st"
  "rejected (removed i st) = rejected st"
  "world_of (removed i st) = world_of st"
  "i < length (inflight st) \<Longrightarrow> Suc (length (inflight (removed i st))) = length (inflight st)"
  by (auto simp: removed_def)

lemma slots_inv_submit: "slots_inv st \<Longrightarrow> slots_inv (submit Index_ts st f)"
  by (auto simp: slots_inv_def submit_def limiter_submit_def downloadLimit_def)

lemma slots_inv_settle:
  assumes "slots_inv st" "i < length (inflight st)"
  shows "slots_inv (settle Index_ts e tdir n i st)"
proof -
  let ?d = "download_task e tdir n (inflight st ! i) (removed i st)"
  have l: "Suc (length (inflight ?d)) = length (inflight st)" "waiting ?d = waiting st"
    using assms(2) by (simp_all add: download_task_lists removed_fields)
  then show ?thesis
    using assms(1)
    by (auto simp: settle_alt slots_inv_def limiter_release_def downloadLimit_def split: list.splits)
qed

lemma slots_inv_events:
  "slots_inv st \<Longrightarrow> slots_inv (foldl (apply_event Index_ts e tdir n) st evs)"
proof (induction evs arbitrary: st)
  case Nil
  then show ?case by simp
next
  case (Cons ev evs)
  have "slots_inv (apply_event Index_ts e tdir n st ev)"
    using Cons.prems by (cases ev) (simp_all add: slots_inv_submit slots_inv_settle)
  then show ?case using Cons.IH by simp
qed

lemma slots_inv_initial: "slots_inv (initial_state w)"
  by (simp add: slots_inv_def initial_state_def)

lemma submits_are_events:
  "foldl (submit v) st ms = foldl (apply_event v e tdir n) st (map Submit ms)"
  by (induction ms arbitrary: st) simp_all

lemma run_tasks_events:
  "\<exists>evs. run_tasks v e tdir n sched st = foldl (apply_event v e tdir n) st evs"
proof (induction v e tdir n sched st rule: run_tasks.induct)
  case (1 v e tdir n sched st)
  show ?case
  proof (cases "inflight st = [] \<or> rejected st \<noteq> None")
    case True
    then have "run_tasks v e tdir n sched st = foldl (apply_event v e tdir n) st []"
      by (simp add: run_tasks.simps)
    then show ?thesis by blast
  next
    case False
    let ?i = "pick sched (length (inflight st))"
    from False have i: "?i < length (inflight st)" by (simp add: pick_less)
    from 1[OF False] obtain evs where
      "run_tasks v e tdir n (tl sched) (settle v e tdir n ?i st)
         = foldl (apply_event v e tdir n) (settle v e tdir n ?i st) evs"
      by blast
    with False i have "run_tasks v e tdir n sched st
        = foldl (apply_event v e tdir n) st (Settle ?i # evs)"
      by (subst run_tasks.simps) simp
    then show ?thesis by blast
  qed
qed

lemma downloads_are_events:
  "\<exists>evs. run_tasks v e tdir n sched (foldl (submit v) (initial_state w) ms)
           = foldl (apply_event v e tdir n) (initial_state w) evs"
proof -
  define st0 where "st0 = foldl (submit v) (initial_state w) ms"
  obtain evs where r: "run_tasks v e tdir n sched st0 = foldl (apply_event v e tdir n) st0 evs"
    using run_tasks_events by blast
  have "foldl (apply_event v e tdir n) st0 evs
          = foldl (apply_event v e tdir n) (initial_state w) (map Submit ms @ evs)"
    by (simp add: st0_def submits_are_events[of v _ _ e tdir n])
  with r show ?thesis unfolding st0_def by metis
qed

lemma settle_lists:
  "i < length (inflight st) \<Longrightarrow> length (inflight st) \<le> 6 \<Longrightarrow>
   inflight (settle Index_ts e tdir n i st)
     = take i (inflight st) @ drop (Suc i) (inflight st) @ take 1 (waiting st) \<and>
   waiting (settle Index_ts e tdir n i st) = drop 1 (waiting st)"
  by (cases "waiting st")
     (auto simp: settle_alt limiter_release_def removed_def download_task_lists downloadLimit_def)

text \<open>
  Claim C6. In \<^verbatim>\<open>src/index.ts\<close>, at every instant of the download phase (after every
  list of events, whatever the tasks do and in whatever order they settle) at most 6
  tasks are in flight, and a task waits only while all 6 slots are taken; the states a
  run of \<open>downloadMods\<close> goes through are such instants. A task submitted while 6 are in
  flight is put at the end of the queue and not started; one submitted while fewer are
  in flight is started at once. When a task in flight settles, the first task of the
  queue takes its slot and leaves the queue, and the other tasks stay where they are.
\<close>

theorem at_most_six_in_flight:
  "length (inflight (foldl (apply_event Index_ts e tdir n) (initial_state w) evs)) \<le> 6 \<and>
   (waiting (foldl (apply_event Index_ts e tdir n) (initial_state w) evs) = [] \<or>
    length (inflight (foldl (apply_event Index_ts e tdir n) (initial_state w) evs)) = 6) \<and>
   (\<exists>evs'. run_tasks Index_ts e tdir n sched (foldl (submit Index_ts) (initial_state w) ms)
             = foldl (apply_event Index_ts e tdir n) (initial_state w) evs') \<and>
   (6 \<le> length (inflight st1) \<longrightarrow>
      submit Index_ts st1 f = st1\<lparr>waiting := waiting st1 @ [f]\<rparr>) \<and>
   (length (inflight st2) < 6 \<longrightarrow>
      submit Index_ts st2 f = st2\<lparr>inflight := inflight st2 @ [f]\<rparr>) \<and>
   (i < length (inflight st3) \<and> length (inflight st3) \<le> 6 \<and> waiting st3 = g # rest \<longrightarrow>
      inflight (settle Index_ts e tdir n i st3)
        = take i (inflight st3) @ drop (Suc i) (inflight st3) @ [g] \<and>
      waiting (settle Index_ts e tdir n i st3) = rest) \<and>
   (i < length (inflight st4) \<and> length (inflight st4) \<le> 6 \<and> waiting st4 = [] \<longrightarrow>
      inflight (settle Index_ts e tdir n i st4)
        = take i (inflight st4) @ drop (Suc i) (inflight st4) \<and>
      waiting (settle Index_ts e tdir n i st4) = [])"
proof -
  have "slots_inv (foldl (apply_event Index_ts e tdir n) (initial_state w) evs)"
    by (rule slots_inv_events[OF slots_inv_initial])
  then have "length (inflight (foldl (apply_event Index_ts e tdir n) (initial_state w) evs)) \<le> 6 \<and>
   (waiting (foldl (apply_event Index_ts e tdir n) (initial_state w) evs) = [] \<or>
    length (inflight (foldl (apply_event Index_ts e tdir n) (initial_state w) evs)) = 6) \<and>
   (\<exists>evs'. run_tasks Index_ts e tdir n sched (foldl (submit Index_ts) (initial_state w) ms)
             = foldl (apply_event Index_ts e tdir n) (initial_state w) evs')"
    using downloads_are_events[of Index_ts e tdir n sched w ms]
    by (simp add: slots_inv_def downloadLimit_def)
  moreover have "6 \<le> length (inflight st1) \<longrightarrow>
      submit Index_ts st1 f = st1\<lparr>waiting := waiting st1 @ [f]\<rparr>"
    by (simp add: submit_def limiter_submit_def downloadLimit_def)
  moreover have "length (inflight st2) < 6 \<longrightarrow>
      submit Index_ts st2 f = st2\<lparr>inflight := inflight st2 @ [f]\<rparr>"
    by (simp add: submit_def limiter_submit_def downloadLimit_def)
  moreover have "i < length (inflight st3) \<and> length (inflight st3) \<le> 6 \<and> waiting st3 = g # rest \<longrightarrow>
      inflight (settle Index_ts e tdir n i st3)
        = take i (inflight st3) @ drop (Suc i) (inflight st3) @ [g] \<and>
      waiting (settle Index_ts e tdir n i st3) = rest"
    using settle_lists[of i st3 e tdir n] by simp
  moreover have "i < length (inflight st4) \<and> length (inflight st4) \<le> 6 \<and> waiting st4 = [] \<longrightarrow>
      inflight (settle Index_ts e tdir n i st4)
        = take i (inflight st4) @ drop (Suc i) (inflight st4) \<and>
      waiting (settle Index_ts e tdir n i st4) = []"
    using settle_lists[of i st4 e tdir n] by simp
  ultimately show ?thesis by blast
qed

theorem at_most_six_in_flight_witness:
  "length (inflight six_in_flight) = 6 \<and>
   submit Index_ts six_in_flight \<lparr>projectID = 7, fileID = 7\<rparr>
     = six_in_flight\<lparr>waiting := [\<lparr>projectID = 7, fileID = 7\<rparr>]\<rparr> \<and>
   submit Index_ts (initial_state empty_world) \<lparr>projectID = 7, fileID = 7\<rparr>
     = (initial_state empty_world)\<lparr>inflight := [\<lparr>projectID = 7, fileID = 7\<rparr>]\<rparr> \<and>
   inflight (settle Index_ts example_env ''t'' 8 2
               (six_in_flight\<lparr>waiting := [\<lparr>projectID = 7, fileID = 7\<rparr>,
                                            \<lparr>projectID = 8, fileID = 8\<rparr>]\<rparr>))
     = map (\<lambda>k. \<lparr>projectID = k, fileID = k\<rparr>) [1, 2, 4, 5, 6, 7] \<and>
   waiting (settle Index_ts example_env ''t'' 8 2
              (six_in_flight\<lparr>waiting := [\<lparr>projectID = 7, fileID = 7\<rparr>,
                                           \<lparr>projectID = 8, fileID = 8\<rparr>]\<rparr>))
     = [\<lparr>projectID = 8, fileID = 8\<rparr>] \<and>
   inflight (settle Index_ts example_env ''t'' 8 2 six_in_flight)
     = map (\<lambda>k. \<lparr>projectID = k, fileID = k\<rparr>) [1, 2, 4, 5, 6] \<and>
   waiting (settle Index_ts example_env ''t'' 8 2 six_in_flight) = []"
  using at_most_six_in_flight[where ?st1.0 = six_in_flight and ?st2.0 = "initial_state empty_world"
      and f = "\<lparr>projectID = 7, fileID = 7\<rparr>" and i = 2 and e = example_env and tdir = "''t''"
      and ?st3.0 = "six_in_flight\<lparr>waiting := [\<lparr>projectID = 7, fileID = 7\<rparr>,
                                               \<lparr>projectID = 8, fileID = 8\<rparr>]\<rparr>"
      and g = "\<lparr>projectID = 7, fileID = 7\<rparr>" and rest = "[\<lparr>projectID = 8, fileID = 8\<rparr>]"
      and ?st4.0 = six_in_flight and n = 8 and w = empty_world and evs = "[]" and sched = "[]"
      and ms = "[]"]
  by (simp add: six_in_flight_def initial_state_def)


lemma count_inv_submit: "count_inv k st \<Longrightarrow> count_inv (Suc k) (submit v st f)"
  by (cases v) (auto simp: count_inv_def submit_def limiter_submit_def)

lemma count_inv_submits:
  "count_inv k st \<Longrightarrow> count_inv (k + length ms) (foldl (submit v) st ms)"
proof (induction ms arbitrary: k st)
  case Nil
  then show ?case by simp
next
  case (Cons m ms)
  from Cons.IH[OF count_inv_submit[OF Cons.prems, of v m]] show ?case by simp
qed

lemma settle_count:
  assumes "i < length (inflight st)"
  shows "(rejected (settle v e tdir n i st) = rejected st \<and>
          downloadedCount (settle v e tdir n i st) = Suc (downloadedCount st)) \<or>
         (rejected (settle v e tdir n i st) \<noteq> None \<and>
          downloadedCount (settle v e tdir n i st) = downloadedCount st)"
  using download_task_count[of e tdir n "inflight st ! i" "removed i st"]
  by (cases v) (simp_all add: settle_alt limiter_release_fields removed_fields)

lemma settle_lengths:
  assumes "i < length (inflight st)"
  shows "Suc (length (inflight (settle v e tdir n i st)) + length (waiting (settle v e tdir n i st)))
           = length (inflight st) + length (waiting st)"
  using assms removed_fields(5)[OF assms]
  by (cases v)
     (simp_all add: settle_alt limiter_release_fields download_task_lists removed_fields)

lemma count_inv_settle:
  assumes "count_inv k st" "i < length (inflight st)"
  shows "count_inv k (settle v e tdir n i st)"
  using assms(1) settle_count[OF assms(2), of v e tdir n] settle_lengths[OF assms(2), of v e tdir n]
  by (auto simp: count_inv_def)

lemma queue_inv_submit: "queue_inv v st \<Longrightarrow> queue_inv v (submit v st f)"
proof (cases v)
  case Index_ts
  then show "queue_inv v st \<Longrightarrow> queue_inv v (submit v st f)"
    using slots_inv_submit[of st f] by (simp add: queue_inv_def)
next
  case Part_000
  then show "queue_inv v st \<Longrightarrow> queue_inv v (submit v st f)"
    by (simp add: queue_inv_def submit_def)
qed

lemma queue_inv_submits: "queue_inv v st \<Longrightarrow> queue_inv v (foldl (submit v) st ms)"
  by (induction ms arbitrary: st) (simp_all add: queue_inv_submit)

lemma queue_inv_settle:
  assumes "queue_inv v st" "i < length (inflight st)"
  shows "queue_inv v (settle v e tdir n i st)"
proof (cases v)
  case Index_ts
  then show ?thesis
    using assms slots_inv_settle[of st i e tdir n] by (simp add: queue_inv_def)
next
  case Part_000
  then show ?thesis
    using assms by (simp add: queue_inv_def settle_alt download_task_lists removed_fields)
qed

lemma run_tasks_invs:
  "count_inv k st \<Longrightarrow> queue_inv v st \<Longrightarrow>
   count_inv k (run_tasks v e tdir n sched st) \<and> queue_inv v (run_tasks v e tdir n sched st) \<and>
   (inflight (run_tasks v e tdir n sched st) = [] \<or> rejected (run_tasks v e tdir n sched st) \<noteq> None)"
proof (induction v e tdir n sched st rule: run_tasks.induct)
  case (1 v e tdir n sched st)
  show ?case
  proof (cases "inflight st = [] \<or> rejected st \<noteq> None")
    case True
    then have "run_tasks v e tdir n sched st = st" by (simp add: run_tasks.simps)
    with True 1(2,3) show ?thesis by simp
  next
    case False
    let ?i = "pick sched (length (inflight st))"
    from False have i: "?i < length (inflight st)" by (simp add: pick_less)
    have r: "run_tasks v e tdir n sched st
               = run_tasks v e tdir n (tl sched) (settle v e tdir n ?i st)"
      using False by (subst run_tasks.simps) simp
    show ?thesis
      unfolding r
      by (rule 1(1)[OF False count_inv_settle[OF 1(2) i] queue_inv_settle[OF 1(3) i]])
  qed
qed

lemma queue_inv_empty: "queue_inv v st \<Longrightarrow> inflight st = [] \<Longrightarrow> waiting st = []"
  by (cases v) (auto simp: queue_inv_def slots_inv_def downloadLimit_def)



lemmas task_eval = settle_def download_task_def fetchModFileInfo_def api_url_def
  example_env_def example_info_def second_info_def namesake_info_def pack_info_def
  string_of_nat.simps write_stderr_def pick_def submit_def limiter_submit_def
  limiter_release_def downloadLimit_def initial_state_def








lemma download_task_fs:
  assumes "rejected (download_task e tdir n f st) = None"
  shows "\<exists>d. task_file e tdir f = Some d \<and>
             fs (world_of (download_task e tdir n f st)) = (fs (world_of st))(fst d \<mapsto> File (snd d))"
  using assms
  by (auto simp: download_task_def fetchModFileInfo_def task_file_def Let_def write_file_def
        write_stderr_def simp del: split_paired_Ex split: option.splits sum.splits if_splits)

lemma download_task_rejected:
  "rejected (download_task e tdir n f st) = None \<Longrightarrow> rejected st = None"
  using download_task_count[of e tdir n f st] by auto

lemma task_files_snoc:
  "task_file e tdir f = Some d \<Longrightarrow> task_files e tdir (fin @ [f]) = task_files e tdir fin @ [d]"
  by (simp add: task_files_def List.map_filter_def del: split_paired_Ex)


lemma written_snoc: "written t (ds @ [d]) = (written t ds)(fst d \<mapsto> File (snd d))"
  by (simp add: written_def split_beta)

lemma mset_removed:
  "i < length xs \<Longrightarrow> mset (take i xs @ drop (Suc i) xs) + {#xs ! i#} = mset xs"
  by (metis add_mset_add_single id_take_nth_drop mset.simps(2) mset_append union_mset_add_mset_right)

lemma limiter_release_mset:
  "mset (inflight (limiter_release limit st)) + mset (waiting (limiter_release limit st))
     = mset (inflight st) + mset (waiting st)"
  by (simp add: limiter_release_def split: list.splits)

lemma settle_world:
  "world_of (settle v e tdir n i st) = world_of (download_task e tdir n (inflight st ! i) (removed i st))"
  "rejected (settle v e tdir n i st) = rejected (download_task e tdir n (inflight st ! i) (removed i st))"
  by (cases v; simp add: settle_alt limiter_release_fields)+

lemma settle_mset:
  assumes "i < length (inflight st)"
  shows "mset (inflight (settle v e tdir n i st)) + mset (waiting (settle v e tdir n i st))
           + {#inflight st ! i#} = mset (inflight st) + mset (waiting st)"
proof -
  have "mset (inflight (settle v e tdir n i st)) + mset (waiting (settle v e tdir n i st))
          = mset (inflight (removed i st)) + mset (waiting (removed i st))"
    by (cases v) (simp_all add: settle_alt limiter_release_mset download_task_lists)
  then show ?thesis
    using mset_removed[OF assms] by (simp add: removed_def)
qed

lemma fs_inv_settle:
  assumes "fs_inv e tdir ms t st" "i < length (inflight st)"
  shows "fs_inv e tdir ms t (settle v e tdir n i st)"
proof (cases "rejected (settle v e tdir n i st) = None")
  case False
  then show ?thesis by (simp add: fs_inv_def)
next
  case True
  let ?f = "inflight st ! i"
  let ?d = "download_task e tdir n ?f (removed i st)"
  from True have r: "rejected ?d = None" by (simp add: settle_world)
  then have "rejected st = None"
    using download_task_rejected[of e tdir n ?f "removed i st"] by (simp add: removed_fields)
  with assms(1) obtain fin where fin:
    "mset fin + mset (inflight st) + mset (waiting st) = mset ms"
    "fs (world_of st) = written t (task_files e tdir fin)"
    "list_all (\<lambda>f. task_file e tdir f \<noteq> None) fin"
    by (auto simp: fs_inv_def)
  from download_task_fs[OF r] obtain d where lb:
    "task_file e tdir ?f = Some d"
    "fs (world_of ?d) = (fs (world_of st))(fst d \<mapsto> File (snd d))"
    by (auto simp: removed_fields)
  have "mset (fin @ [?f]) + mset (inflight (settle v e tdir n i st))
          + mset (waiting (settle v e tdir n i st)) = mset ms"
    using settle_mset[OF assms(2), of v e tdir n] fin(1)
    by (simp add: ac_simps) (metis add.assoc add.commute add_mset_add_single)
  moreover have "fs (world_of (settle v e tdir n i st)) = written t (task_files e tdir (fin @ [?f]))"
    using lb fin(2) by (simp add: settle_world task_files_snoc written_snoc)
  moreover have "list_all (\<lambda>f. task_file e tdir f \<noteq> None) (fin @ [?f])"
    using fin(3) lb(1) by (simp del: split_paired_Ex)
  ultimately show ?thesis
    unfolding fs_inv_def by blast
qed


lemma submit_fields:
  "world_of (submit v st f) = world_of st"
  "rejected (submit v st f) = rejected st"
  "mset (inflight (submit v st f)) + mset (waiting (submit v st f))
     = mset (inflight st) + mset (waiting st) + {#f#}"
  by (cases v; simp add: submit_def limiter_submit_def)+

lemma submits_fields:
  "world_of (foldl (submit v) st ms) = world_of st"
  "rejected (foldl (submit v) st ms) = rejected st"
  "mset (inflight (foldl (submit v) st ms)) + mset (waiting (foldl (submit v) st ms))
     = mset (inflight st) + mset (waiting st) + mset ms"
  by (induction ms arbitrary: st) (simp_all add: submit_fields)

lemma fs_inv_started: "fs_inv e tdir ms (fs w) (foldl (submit v) (initial_state w) ms)"
proof -
  have "mset [] + mset (inflight (foldl (submit v) (initial_state w) ms))
          + mset (waiting (foldl (submit v) (initial_state w) ms)) = mset ms"
    using submits_fields(3)[of v "initial_state w" ms] by (simp add: initial_state_def)
  moreover have "fs (world_of (foldl (submit v) (initial_state w) ms))
          = written (fs w) (task_files e tdir [])"
    by (simp add: submits_fields initial_state_def written_def task_files_def List.map_filter_def)
  moreover have "list_all (\<lambda>f. task_file e tdir f \<noteq> None) []"
    by simp
  ultimately show ?thesis unfolding fs_inv_def by blast
qed

lemma run_tasks_fs_inv:
  "fs_inv e tdir ms t st \<Longrightarrow> fs_inv e tdir ms t (run_tasks v e tdir n sched st)"
proof (induction v e tdir n sched st rule: run_tasks.induct)
  case (1 v e tdir n sched st)
  show ?case
  proof (cases "inflight st = [] \<or> rejected st \<noteq> None")
    case True
    then have "run_tasks v e tdir n sched st = st" by (simp add: run_tasks.simps)
    with 1(2) show ?thesis by simp
  next
    case False
    let ?i = "pick sched (length (inflight st))"
    from False have i: "?i < length (inflight st)" by (simp add: pick_less)
    have r: "run_tasks v e tdir n sched st
               = run_tasks v e tdir n (tl sched) (settle v e tdir n ?i st)"
      using False by (subst run_tasks.simps) simp
    show ?thesis
      unfolding r by (rule 1(1)[OF False fs_inv_settle[OF 1(2) i]])
  qed
qed

lemma download_phase_fs:
  assumes "rejected (run_tasks v e tdir n sched (foldl (submit v) (initial_state w) ms)) = None"
  shows "\<exists>finished. mset finished = mset ms \<and>
     list_all (\<lambda>f. task_file e tdir f \<noteq> None) ms \<and>
     fs (world_of (run_tasks v e tdir n sched (foldl (submit v) (initial_state w) ms)))
       = written (fs w) (task_files e tdir finished)"
proof -
  let ?init = "foldl (submit v) (initial_state w) ms"
  let ?end = "run_tasks v e tdir n sched ?init"
  have "count_inv 0 (initial_state w)"
    by (simp add: count_inv_def initial_state_def)
  then have c: "count_inv (0 + length ms) ?init"
    by (rule count_inv_submits)
  have "queue_inv v (initial_state w)"
    using slots_inv_initial[of w] by (cases v) (simp_all add: queue_inv_def initial_state_def)
  then have q: "queue_inv v ?init"
    by (rule queue_inv_submits)
  from run_tasks_invs[OF c q, of e tdir n sched] assms
  have "inflight ?end = []" "queue_inv v ?end" by blast+
  then have empty: "inflight ?end = []" "waiting ?end = []"
    using queue_inv_empty by blast+
  have "fs_inv e tdir ms (fs w) ?init"
    by (rule fs_inv_started)
  then have "fs_inv e tdir ms (fs w) ?end"
    by (rule run_tasks_fs_inv)
  with assms obtain finished where f:
    "mset finished + mset (inflight ?end) + mset (waiting ?end) = mset ms"
    "list_all (\<lambda>f. task_file e tdir f \<noteq> None) finished"
    "fs (world_of ?end) = written (fs w) (task_files e tdir finished)"
    by (auto simp: fs_inv_def)
  from f(1) empty have m: "mset finished = mset ms" by simp
  then have "set finished = set ms" by (rule mset_eq_setD)
  with f(2) have "list_all (\<lambda>f. task_file e tdir f \<noteq> None) ms"
    by (simp add: list_all_iff)
  with m f(3) show ?thesis by blast
qed

lemma written_distinct:
  "distinct (map fst ds) \<Longrightarrow>
   written t ds l = (case map_of ds l of Some b \<Rightarrow> Some (File b) | None \<Rightarrow> t l)"
proof (induction ds rule: rev_induct)
  case Nil
  then show ?case by (simp add: written_def)
next
  case (snoc d ds)
  then have "map_of ds (fst d) = None"
    by (simp add: map_of_eq_None_iff)
  with snoc show ?case
    by (auto simp: written_snoc map_add_def split: option.splits)
qed

lemma task_files_mset:
  "mset xs = mset ys \<Longrightarrow> mset (task_files e tdir xs) = mset (task_files e tdir ys)"
  by (metis task_files_def List.map_filter_def mset_filter mset_map)

lemma written_permuted:
  assumes "mset ds = mset ds'" "distinct (map fst ds)"
  shows "written t ds = written t ds'"
proof
  fix l
  have "mset (map fst ds) = mset (map fst ds')"
    using assms(1) by (metis mset_map)
  then have d': "distinct (map fst ds')"
    using assms(2) mset_eq_imp_distinct_iff by blast
  have "set ds = set ds'"
    using assms(1) mset_eq_setD by blast
  then have "map_of ds = map_of ds'"
    using assms(2) d' map_of_inject_set by blast
  then show "written t ds l = written t ds' l"
    by (simp add: written_distinct[OF assms(2)] written_distinct[OF d'])
qed

lemma downloadMods_success:
  assumes "zip_file p ''manifest.json'' = Some d" "JSON_parse e (content d) = Some m"
    "downloadMods v e sched p tdir w = (Inr (), w')"
  shows "\<exists>t finished. mkdir_recursive (fs w) (join [tdir, ''mods'']) = Inr t \<and>
           mset finished = mset (files m) \<and>
           list_all (\<lambda>f. task_file e tdir f \<noteq> None) (files m) \<and>
           fs w' = written t (task_files e tdir finished)"
proof -
  from assms obtain t where t: "mkdir_recursive (fs w) (join [tdir, ''mods'']) = Inr t"
    by (auto simp: downloadMods_def split: sum.splits)
  define w2 where "w2 = write_stderr (''Downloading '' @ string_of_nat (length (files m))
      @ '' files...'' @ [CHR 0x0A]) (w\<lparr>fs := t\<rparr>)"
  let ?end = "run_tasks v e tdir (length (files m)) sched (foldl (submit v) (initial_state w2) (files m))"
  from assms t have r: "rejected ?end = None" and w': "w' = world_of ?end"
    by (auto simp: downloadMods_def Let_def w2_def split: option.splits)
  from download_phase_fs[OF r] obtain finished where
    "mset finished = mset (files m)"
    "list_all (\<lambda>f. task_file e tdir f \<noteq> None) (files m)"
    "fs (world_of ?end) = written (fs w2) (task_files e tdir finished)"
    by blast
  moreover have "fs w2 = t" by (simp add: w2_def write_stderr_def)
  ultimately show ?thesis using t w' by auto
qed

text \<open>
  Claim C8, as the code has it. Two manifests whose \<open>files\<close> are permutations of each
  other, whose entries have pairwise distinct destinations, leave the same files with
  the same contents after a successful download phase from the same disk, whatever the
  two schedules and variants.
\<close>

theorem manifest_order_irrelevant:
  "zip_file p1 ''manifest.json'' = Some d1 \<Longrightarrow> JSON_parse e (content d1) = Some m1 \<Longrightarrow>
   zip_file p2 ''manifest.json'' = Some d2 \<Longrightarrow> JSON_parse e (content d2) = Some m2 \<Longrightarrow>
   mset (files m1) = mset (files m2) \<Longrightarrow>
   distinct (map fst (task_files e tdir (files m1))) \<Longrightarrow>
   downloadMods v1 e s1 p1 tdir w = (Inr (), w1) \<Longrightarrow>
   downloadMods v2 e s2 p2 tdir w = (Inr (), w2) \<Longrightarrow>
   fs w1 = fs w2"
proof -
  assume a: "zip_file p1 ''manifest.json'' = Some d1" "JSON_parse e (content d1) = Some m1"
    "zip_file p2 ''manifest.json'' = Some d2" "JSON_parse e (content d2) = Some m2"
    and perm: "mset (files m1) = mset (files m2)"
    and dist: "distinct (map fst (task_files e tdir (files m1)))"
    and r: "downloadMods v1 e s1 p1 tdir w = (Inr (), w1)"
      "downloadMods v2 e s2 p2 tdir w = (Inr (), w2)"
  from downloadMods_success[OF a(1,2) r(1)] obtain t f1 where 1:
    "mkdir_recursive (fs w) (join [tdir, ''mods'']) = Inr t" "mset f1 = mset (files m1)"
    "fs w1 = written t (task_files e tdir f1)"
    by blast
  from downloadMods_success[OF a(3,4) r(2)] 1(1) obtain f2 where 2:
    "mset f2 = mset (files m2)" "fs w2 = written t (task_files e tdir f2)"
    by auto
  have m: "mset (task_files e tdir f1) = mset (task_files e tdir f2)"
    using 1(2) 2(1) perm by (intro task_files_mset) simp
  have "mset (map fst (task_files e tdir f1)) = mset (map fst (task_files e tdir (files m1)))"
    using task_files_mset[OF 1(2), of e tdir] by (metis mset_map)
  then have "distinct (map fst (task_files e tdir f1))"
    using dist mset_eq_imp_distinct_iff by blast
  from written_permuted[OF m this] show "fs w1 = fs w2"
    by (simp add: 1(3) 2(2))
qed


lemmas pack_eval = downloadMods_def zip_file_def pack_with_def full_pack_def json_a_b_def
  json_b_a_def json_a_c_def json_c_a_def example_manifest_def two_mods_def namesakes_def
  empty_world_def mkdir_example

lemma download_a_b:
  "downloadMods Index_ts example_env [Suc 0] (pack_with json_a_b) ''t'' empty_world
     = (Inr (),
        \<lparr>fs = [(False, [''t'']) \<mapsto> Dir, (False, [''t'', ''mods'']) \<mapsto> Dir,
                (False, [''t'', ''mods'', ''b.jar'']) \<mapsto> File ''bb'',
                (False, [''t'', ''mods'', ''a.jar'']) \<mapsto> File ''0123456789''],
           stderr = [''Downloading 2 files...'' @ [CHR 0x0A], ''(1/2) B'' @ [CHR 0x0A],
                     ''(2/2) A'' @ [CHR 0x0A]],
           requests = [api_url (Num 3) (Num 4), ''http://x/b.jar'',
                       api_url (Num 1) (Num 2), ''http://x/a.jar'']\<rparr>)"
  by (simp add: pack_eval run_tasks.simps task_eval path_eval)

lemma download_b_a:
  "downloadMods Part_000 example_env [] (pack_with json_b_a) ''t'' empty_world
     = (Inr (),
        \<lparr>fs = [(False, [''t'']) \<mapsto> Dir, (False, [''t'', ''mods'']) \<mapsto> Dir,
                (False, [''t'', ''mods'', ''b.jar'']) \<mapsto> File ''bb'',
                (False, [''t'', ''mods'', ''a.jar'']) \<mapsto> File ''0123456789''],
           stderr = [''Downloading 2 files...'' @ [CHR 0x0A], ''(1/2) B'' @ [CHR 0x0A],
                     ''(2/2) A'' @ [CHR 0x0A]],
           requests = [api_url (Num 3) (Num 4), ''http://x/b.jar'',
                       api_url (Num 1) (Num 2), ''http://x/a.jar'']\<rparr>)"
  by (simp add: pack_eval run_tasks.simps task_eval path_eval)

lemma task_files_two_mods:
  "task_files example_env ''t'' two_mods
     = [((False, [''t'', ''mods'', ''a.jar'']), ''0123456789''),
        ((False, [''t'', ''mods'', ''b.jar'']), ''bb'')]"
  by (simp add: task_files_def task_file_def two_mods_def task_eval path_eval)

theorem manifest_order_irrelevant_witness:
  "distinct (map fst (task_files example_env ''t'' two_mods)) \<and>
   mset two_mods = mset (rev two_mods) \<and>
   fst (downloadMods Index_ts example_env [Suc 0] (pack_with json_a_b) ''t'' empty_world) = Inr () \<and>
   fst (downloadMods Part_000 example_env [] (pack_with json_b_a) ''t'' empty_world) = Inr () \<and>
   fs (snd (downloadMods Index_ts example_env [Suc 0] (pack_with json_a_b) ''t'' empty_world))
     = fs (snd (downloadMods Part_000 example_env [] (pack_with json_b_a) ''t'' empty_world))"
  using manifest_order_irrelevant[where ?p1.0 = "pack_with json_a_b"
      and ?d1.0 = "\<lparr>dir = False, content = json_a_b\<rparr>" and e = example_env
      and ?m1.0 = "\<lparr>files = two_mods\<rparr>" and ?p2.0 = "pack_with json_b_a"
      and ?d2.0 = "\<lparr>dir = False, content = json_b_a\<rparr>" and ?m2.0 = "\<lparr>files = rev two_mods\<rparr>"
      and tdir = "''t''" and ?v1.0 = Index_ts and ?s1.0 = "[Suc 0]" and w = empty_world
      and ?w1.0 = "snd (downloadMods Index_ts example_env [Suc 0] (pack_with json_a_b) ''t'' empty_world)"
      and ?v2.0 = Part_000 and ?s2.0 = "[]"
      and ?w2.0 = "snd (downloadMods Part_000 example_env [] (pack_with json_b_a) ''t'' empty_world)"]
  by (simp add: download_a_b download_b_a task_files_two_mods)

text \<open>
  The claim as written fails where two entries share a destination: \<^verbatim>\<open>a.jar\<close> and its
  namesake are written to the same path, the task that finishes last wins, and with
  the tasks finishing in the order they were started the two orders of the manifest
  leave different bytes in \<^verbatim>\<open>t/mods/a.jar\<close>.
\<close>

theorem manifest_order_irrelevant_counterexample:
  "fst (downloadMods Index_ts example_env [] (pack_with json_a_c) ''t'' empty_world) = Inr () \<and>
   fst (downloadMods Index_ts example_env [] (pack_with json_c_a) ''t'' empty_world) = Inr () \<and>
   fs (snd (downloadMods Index_ts example_env [] (pack_with json_a_c) ''t'' empty_world))
      (False, [''t'', ''mods'', ''a.jar'']) = Some (File ''cc'') \<and>
   fs (snd (downloadMods Index_ts example_env [] (pack_with json_c_a) ''t'' empty_world))
      (False, [''t'', ''mods'', ''a.jar'']) = Some (File ''0123456789'')"
  by (simp add: pack_eval run_tasks.simps task_eval path_eval)


subsection \<open>The files of a run\<close>











lemmas overrides_eval = expandOverrides_def zip_folder_def zip_forEach_def forceTrailingSlash_def
  write_stderr_def full_pack_def pack_with_def namesake_pack_def twice_pack_def










subsection \<open>The end-to-end example\<close>

text \<open>
  The interface's example, run from the command line on an empty disk: the manifest
  \<^verbatim>\<open>{"files":[{"projectID":1,"fileID":2}]}\<close>, the metadata of \<open>(1, 2)\<close> naming
  \<^verbatim>\<open>a.jar\<close> with display name \<open>A\<close>, ten bytes served. After the run
  \<^verbatim>\<open>t/mods/a.jar\<close> holds the ten bytes and the progress output has the line
  \<^verbatim>\<open>(1/1) A\<close>.
\<close>

lemma end_to_end_example:
  "main Index_ts example_env [] [''node'', ''index.js'', install_uri ''7'' ''8'', ''t''] empty_world
     = (Finished,
        \<lparr>fs = [(False, [''t'']) \<mapsto> Dir, (False, [''t'', ''mods'']) \<mapsto> Dir,
                (False, [''t'', ''mods'', ''a.jar'']) \<mapsto> File ''0123456789''],
           stderr = [''Modpack name: Pack'' @ [CHR 0x0A], ''Downloading modpack zip...'',
                     ''done'' @ [CHR 0x0A], ''Downloading 1 files...'' @ [CHR 0x0A],
                     ''(1/1) A'' @ [CHR 0x0A], ''Expanding overrides...'',
                     ''Finish!'' @ [CHR 0x0A]],
           requests = [api_url (Str ''7'') (Str ''8''), ''http://x/pack.zip'',
                       api_url (Num 1) (Num 2), ''http://x/a.jar'']\<rparr>)"
proof -
  have "URL_new (install_uri ''7'' ''8'') =
      Some (Some \<lparr>protocol = ''curseforge:'', hostname = ''install'',
                  searchParams = [(''addonId'', ''7''), (''fileId'', ''8'')]\<rparr>)"
    by (rule URL_new_install_uri)
       (simp_all add: kept_def clean_def literal_def tab_or_newline_def c0_or_space_def)
  then have "parseCommandLineArgs example_env
      [''node'', ''index.js'', install_uri ''7'' ''8'', ''t''] empty_world
          = (Inr \<lparr>targetDir = ''t'', addonId = ''7'', fileId = ''8''\<rparr>, empty_world)"
    by (simp add: parse_args_url install_uri_not_usage example_new_URL searchParams_get_def)
  then show ?thesis
    by (simp add: main_def run_def downloadModpack_def pack_eval overrides_eval
          run_tasks.simps task_eval path_eval)
qed

end
